theory Spec2Isabelle
  imports Main "HOL-Library.AList" "HOL-Library.Char_ord" "HOL-Library.List_Lexorder"
begin

section \<open>Python strings\<close>

text \<open>
  A Python \<open>str\<close> is modelled as a \<open>string\<close> whose characters stand for the code points
  0 to 255, one \<open>char\<close> per code point, so that \<open>length\<close>, \<open>take\<close> and \<open>drop\<close> count what
  \<open>len\<close> and slicing count in the source.
\<close>

definition isspace :: "char \<Rightarrow> bool" where
  \<comment> \<open>\<open>str.isspace\<close> on one code point below 256; the class \<open>\s\<close> of \<open>re\<close> is the same set.\<close>
  "isspace c = (of_char c \<in> set [0x09, 0x0A, 0x0B, 0x0C, 0x0D, 0x1C, 0x1D, 0x1E, 0x1F, 0x20, 0x85, 0xA0 :: nat])"

definition lower_char :: "char \<Rightarrow> char" where
  \<comment> \<open>\<open>str.lower\<close> on one code point below 256: A to Z, and the Latin-1 capitals but the
      multiplication sign.\<close>
  "lower_char c =
     (let n = (of_char c :: nat)
      in if (0x41 \<le> n \<and> n \<le> 0x5A) \<or> (0xC0 \<le> n \<and> n \<le> 0xDE \<and> n \<noteq> 0xD7)
         then char_of (n + 32) else c)"

definition lower :: "string \<Rightarrow> string" where
  "lower s = map lower_char s"

definition strip :: "string \<Rightarrow> string" where
  "strip s = rev (dropWhile isspace (rev (dropWhile isspace s)))"

fun show_nat :: "nat \<Rightarrow> string" where
  \<comment> \<open>\<open>str(n)\<close> for \<open>n \<ge> 0\<close>: the decimal digits\<close>
  "show_nat n =
     (if n < 10 then [char_of (48 + n)] else show_nat (n div 10) @ [char_of (48 + n mod 10)])"

definition show_int :: "int \<Rightarrow> string" where
  "show_int i = (if i < 0 then ''-'' @ show_nat (nat (- i)) else show_nat (nat i))"

section \<open>The verifier's command filter (agents/verifier.py)\<close>

text \<open>
  The six forbidden patterns use only literal characters, \<open>\s\<close>, \<open>\s+\<close> and the group
  \<open>(^|\s)\<close>; a pattern is a sequence of such atoms.
\<close>

datatype atom = Ch char | Ws | WsPlus | BolOrWs

fun lit :: "string \<Rightarrow> atom list" where
  "lit s = map Ch s"

fun match_here :: "atom list \<Rightarrow> bool \<Rightarrow> string \<Rightarrow> bool" where
  \<comment> \<open>does the pattern match at this position; the flag says the position is the start
      of the subject, where \<open>^\<close> matches\<close>
  "match_here [] at0 s = True"
| "match_here (Ch c # p) at0 [] = False"
| "match_here (Ch c # p) at0 (x # xs) = (x = c \<and> match_here p False xs)"
| "match_here (Ws # p) at0 [] = False"
| "match_here (Ws # p) at0 (x # xs) = (isspace x \<and> match_here p False xs)"
| "match_here (WsPlus # p) at0 [] = False"
| "match_here (WsPlus # p) at0 (x # xs) =
     (isspace x \<and> (match_here (WsPlus # p) False xs \<or> match_here p False xs))"
| "match_here (BolOrWs # p) at0 [] = (at0 \<and> match_here p at0 [])"
| "match_here (BolOrWs # p) at0 (x # xs) =
     ((at0 \<and> match_here p at0 (x # xs)) \<or> (isspace x \<and> match_here p False xs))"

fun search_from :: "atom list \<Rightarrow> bool \<Rightarrow> string \<Rightarrow> bool" where
  "search_from p at0 [] = match_here p at0 []"
| "search_from p at0 (x # xs) = (match_here p at0 (x # xs) \<or> search_from p False xs)"

definition re_search :: "atom list \<Rightarrow> string \<Rightarrow> bool" where
  \<comment> \<open>\<open>re.search(pattern, s)\<close> as a truth value\<close>
  "re_search p s = search_from p True s"

definition FORBIDDEN_COMMAND_PATTERNS :: "atom list list" where
  "FORBIDDEN_COMMAND_PATTERNS =
     [ BolOrWs # lit ''git'' @ [Ws],
       lit ''gh'' @ [Ws],
       lit ''gitkraken'',
       lit ''commit'',
       lit ''push'',
       lit ''create'' @ [WsPlus] @ lit ''pr'' ]"

record CommandResult =
  exit_code :: int
  stdout :: string
  stderr :: string

definition safety_banner :: string where
  "safety_banner =
     ''Verifier safety policy: git/PR/push commands are not allowed during verification.''"

text \<open>
  The sandbox is the log of the commands it was asked to run, oldest first, each with its
  timeout; what a command returns is decided by the provider, which may look at the log.
\<close>

type_synonym proc_log = "(string \<times> nat) list"

definition sandbox_run_command ::
  "(proc_log \<Rightarrow> string \<Rightarrow> CommandResult) \<Rightarrow> proc_log \<Rightarrow> string \<Rightarrow> nat \<Rightarrow> CommandResult \<times> proc_log" where
  "sandbox_run_command provider log cmd timeout = (provider log cmd, log @ [(cmd, timeout)])"

definition verifier_run ::
  "(proc_log \<Rightarrow> string \<Rightarrow> CommandResult) \<Rightarrow> proc_log \<Rightarrow> string \<Rightarrow> CommandResult \<times> proc_log" where
  \<comment> \<open>\<open>_run\<close> of \<open>create_verifier\<close>\<close>
  "verifier_run provider log command =
     (let normalized = lower (strip command)
      in if list_ex (\<lambda>pattern. re_search pattern normalized) FORBIDDEN_COMMAND_PATTERNS
         then (\<lparr>exit_code = 2, stdout = [], stderr = safety_banner\<rparr>, log)
         else (let (result, log') = sandbox_run_command provider log command 120
               in (\<lparr>exit_code = exit_code result,
                    stdout = take 50000 (stdout result),
                    stderr = take 10000 (stderr result)\<rparr>, log')))"

section \<open>The agent executor (agents/base.py)\<close>

subsection \<open>Values, events, content blocks, messages\<close>

datatype json =
  JNull | JBool bool | JInt int | JStr string | JArr "json list" | JObj "(string \<times> json) list"

text \<open>
  An \<open>AgentEvent\<close> without its timestamp, which is the clock's reading when the event is
  made and is read by nothing in the executor.
\<close>

record AgentEvent =
  ev_role :: string
  ev_type :: string
  ev_data :: json

record AgentOutput =
  out_role :: string
  out_result :: json
  out_events :: "AgentEvent list"

text \<open>
  A block of \<open>response.content\<close>: \<open>block.type\<close> is \<open>text\<close> (with \<open>block.text\<close>),
  \<open>tool_use\<close> (with \<open>block.id\<close>, \<open>block.name\<close>, \<open>block.input\<close>) or anything else,
  which the loop skips.
\<close>

datatype block = TextBlock string | ToolUseBlock string string json | OtherBlock string

fun is_tool_use :: "block \<Rightarrow> bool" where
  "is_tool_use (ToolUseBlock bid bname binput) = True"
| "is_tool_use _ = False"

text \<open>
  The content of a tool result is the handler's string or its list of media blocks. The
  content of a message is a string or a list, whose items are the blocks of a response,
  tool-result entries, or the text entry that \<open>resume\<close> appends.
\<close>

datatype tool_content = ContentStr string | ContentList "json list"

datatype item = Block block | ToolResult string tool_content | TextItem string

datatype content = Text string | Items "item list"

record message =
  msg_role :: string
  msg_content :: content

subsection \<open>Tools, the model client, the agent\<close>

text \<open>
  What awaiting a handler can do. It returns a string, a list or another value, or raises;
  an \<open>Exception\<close> is caught by the loop; a cancellation (\<open>asyncio.CancelledError\<close>) and
  any other \<open>BaseException\<close> are not. While it runs it may call \<open>mark_done\<close> on the
  agent (the \<open>complete\<close> tool does), the agent's \<open>interrupt\<close> may be called, and it
  changes the world outside the agent (the sandbox, the network), of type \<open>'w\<close>.
\<close>

datatype raised = Exception string | CancelledError | BaseException string

fun caught :: "raised \<Rightarrow> string option" where
  \<comment> \<open>\<open>except Exception as exc\<close>: \<open>str(exc)\<close> where the clause catches\<close>
  "caught (Exception e) = Some e"
| "caught CancelledError = None"
| "caught (BaseException e) = None"

datatype returned = RetStr string | RetList "json list" | RetOther json

record 'w handler_ret =
  h_outcome :: "raised + returned"
  h_mark_done :: "json option"
  h_interrupt :: bool
  h_world :: 'w

record 'w ToolDef =
  tool_name :: string
  description :: string
  input_schema :: json
  handler :: "json \<Rightarrow> 'w \<Rightarrow> 'w handler_ret"

text \<open>
  What awaiting \<open>client.messages.create\<close> can do: return the content of a response or
  raise (\<open>Inl\<close>); the agent's \<open>interrupt\<close> may be called meanwhile. The model, the token
  limit, the system prompt and the tool schema are the same at every call of one agent, so
  the reply is a function of the messages and the world.
\<close>

record 'w client_ret =
  c_reply :: "raised + block list"
  c_interrupt :: bool
  c_world :: 'w

text \<open>
  The two functions of the \<open>json\<close> module that the executor calls. \<open>json_loads\<close> gives
  \<open>None\<close> where \<open>json.loads\<close> raises \<open>JSONDecodeError\<close>; \<open>json_dumps\<close> gives \<open>Inl\<close> of
  the message where \<open>json.dumps\<close> raises.
\<close>

record pylib =
  json_loads :: "string \<Rightarrow> json option"
  json_dumps :: "json \<Rightarrow> string + string"

record 'w BaseAgent =
  role :: string
  max_iterations :: int
  tools :: "'w ToolDef list"
  client :: "message list \<Rightarrow> 'w \<Rightarrow> 'w client_ret"
  events :: "AgentEvent list"
  messages :: "message list"
  done_flag :: bool
  result :: json
  interrupted :: bool
  world :: 'w

definition emit :: "string \<Rightarrow> json \<Rightarrow> 'w BaseAgent \<Rightarrow> 'w BaseAgent" where
  \<comment> \<open>\<open>_emit\<close>: the event callback is handed each event as it is appended, and is an
      observer of the buffer\<close>
  "emit etype data a =
     a\<lparr>events := events a @ [\<lparr>ev_role = role a, ev_type = etype, ev_data = data\<rparr>]\<rparr>"

definition status_change :: "string \<Rightarrow> 'w BaseAgent \<Rightarrow> 'w BaseAgent" where
  \<comment> \<open>\<open>self._emit("status_change", {"status": f"{self.role}_<suffix>"})\<close>\<close>
  "status_change suffix a =
     emit ''status_change'' (JObj [(''status'', JStr (role a @ ''_'' @ suffix))]) a"

definition find_tool :: "'w BaseAgent \<Rightarrow> string \<Rightarrow> 'w ToolDef option" where
  "find_tool a n = find (\<lambda>t. tool_name t = n) (tools a)"

definition mark_done :: "json \<Rightarrow> 'w BaseAgent \<Rightarrow> 'w BaseAgent" where
  "mark_done r a = a\<lparr>done_flag := True, result := r\<rparr>"

definition interrupt :: "'w BaseAgent \<Rightarrow> 'w BaseAgent" where
  "interrupt a = a\<lparr>interrupted := True, done_flag := True\<rparr>"

subsection \<open>Parsing the final text\<close>

fun find_sub :: "string \<Rightarrow> string \<Rightarrow> nat option" where
  \<comment> \<open>\<open>s.find(sub)\<close>: the least index where \<open>sub\<close> occurs in \<open>s\<close>\<close>
  "find_sub sub [] = (if sub = [] then Some 0 else None)"
| "find_sub sub (x # xs) =
     (if take (length sub) (x # xs) = sub then Some 0
      else map_option Suc (find_sub sub xs))"

definition index_from :: "string \<Rightarrow> string \<Rightarrow> nat \<Rightarrow> nat option" where
  \<comment> \<open>\<open>s.index(sub, start)\<close>, \<open>None\<close> where it raises \<open>ValueError\<close>\<close>
  "index_from sub s start =
     (if length s < start then None
      else map_option (\<lambda>i. start + i) (find_sub sub (drop start s)))"

definition fence :: string where
  "fence = [CHR 0x60, CHR 0x60, CHR 0x60]"

definition parse_output :: "pylib \<Rightarrow> string \<Rightarrow> raised + json" where
  \<comment> \<open>\<open>_parse_output\<close>: a fenced block with no closing fence makes \<open>text.index\<close> raise\<close>
  "parse_output L text =
     (let fenced =
        (case find_sub (fence @ ''json'') text of
           None \<Rightarrow> Inr None
         | Some i \<Rightarrow>
             (let start = i + 7
              in case index_from fence text start of
                   None \<Rightarrow> Inl (Exception ''substring not found'')
                 | Some end_idx \<Rightarrow>
                     Inr (json_loads L (strip (take (end_idx - start) (drop start text))))))
      in case fenced of
           Inl e \<Rightarrow> Inl e
         | Inr (Some v) \<Rightarrow> Inr v
         | Inr None \<Rightarrow>
             (case json_loads L text of
                Some v \<Rightarrow> Inr v
              | None \<Rightarrow> Inr (JObj [(''summary'', JStr text)])))"

subsection \<open>The loop\<close>

definition join :: "string \<Rightarrow> string list \<Rightarrow> string" where
  \<comment> \<open>\<open>sep.join(parts)\<close>\<close>
  "join sep parts = (case parts of [] \<Rightarrow> [] | p # ps \<Rightarrow> p @ concat (map (\<lambda>q. sep @ q) ps))"

definition quote :: "string \<Rightarrow> string" where
  "quote s = [CHR 0x27] @ s @ [CHR 0x27]"

text \<open>
  The state of the \<open>for block in response.content\<close> loop: the agent, \<open>text_parts\<close> and
  \<open>tool_results\<close>.
\<close>

type_synonym 'w blocks_state = "'w BaseAgent \<times> string list \<times> item list"

definition record_result ::
  "string \<Rightarrow> string \<Rightarrow> string \<Rightarrow> tool_content \<Rightarrow> 'w blocks_state \<Rightarrow> 'w blocks_state" where
  \<comment> \<open>the \<open>tool_result\<close> event and the entry of \<open>tool_results\<close> that end a tool-use block\<close>
  "record_result bid bname result_str tool_content st =
     (case st of (a, text_parts, tool_results) \<Rightarrow>
        (emit ''tool_result''
           (JObj [(''tool'', JStr bname), (''id'', JStr bid),
                  (''result'', JStr (take 5000 result_str))]) a,
         text_parts,
         tool_results @ [ToolResult bid tool_content]))"

definition after_handler :: "'w handler_ret \<Rightarrow> 'w BaseAgent \<Rightarrow> 'w BaseAgent" where
  \<comment> \<open>the agent once the awaited handler is back\<close>
  "after_handler r a =
     (let a1 = a\<lparr>world := h_world r\<rparr>;
          a2 = (case h_mark_done r of None \<Rightarrow> a1 | Some v \<Rightarrow> mark_done v a1)
      in if h_interrupt r then interrupt a2 else a2)"

fun process_block ::
  "pylib \<Rightarrow> block \<Rightarrow> 'w blocks_state \<Rightarrow> raised option \<times> 'w blocks_state" where
  "process_block L (TextBlock t) (a, text_parts, tool_results) =
     (None, (emit ''agent_message'' (JObj [(''content'', JStr t)]) a,
             text_parts @ [t], tool_results))"
| "process_block L (ToolUseBlock bid bname binput) (a, text_parts, tool_results) =
     (let tool_def = find_tool a bname;
          a1 = emit ''tool_call''
                 (JObj [(''tool'', JStr bname), (''input'', binput), (''id'', JStr bid)]) a
      in case tool_def of
           None \<Rightarrow>
             (let result_str = ''Error: unknown tool '' @ quote bname
              in (None, record_result bid bname result_str (ContentStr result_str)
                          (a1, text_parts, tool_results)))
         | Some t \<Rightarrow>
             (let r = handler t binput (world a1);
                  a2 = after_handler r a1
              in case h_outcome r of
                   Inl exc \<Rightarrow>
                     (case caught exc of
                        None \<Rightarrow> (Some exc, (a2, text_parts, tool_results))
                      | Some e \<Rightarrow>
                          (let result_str = ''Error: '' @ e
                           in (None, record_result bid bname result_str (ContentStr result_str)
                                       (a2, text_parts, tool_results))))
                 | Inr (RetList l) \<Rightarrow>
                     (None, record_result bid bname ''[Media Content Array]'' (ContentList l)
                              (a2, text_parts, tool_results))
                 | Inr (RetStr s) \<Rightarrow>
                     (None, record_result bid bname s (ContentStr s)
                              (a2, text_parts, tool_results))
                 | Inr (RetOther v) \<Rightarrow>
                     (case json_dumps L v of
                        Inl e \<Rightarrow>
                          (let result_str = ''Error: '' @ e
                           in (None, record_result bid bname result_str (ContentStr result_str)
                                       (a2, text_parts, tool_results)))
                      | Inr s \<Rightarrow>
                          (None, record_result bid bname s (ContentStr s)
                                   (a2, text_parts, tool_results)))))"
| "process_block L (OtherBlock ty) st = (None, st)"

fun process_blocks ::
  "pylib \<Rightarrow> block list \<Rightarrow> 'w blocks_state \<Rightarrow> raised option \<times> 'w blocks_state" where
  "process_blocks L [] st = (None, st)"
| "process_blocks L (b # bs) st =
     (case process_block L b st of
        (Some e, st') \<Rightarrow> (Some e, st')
      | (None, st') \<Rightarrow> process_blocks L bs st')"

definition interrupted_result :: json where
  "interrupted_result =
     JObj [(''status'', JStr ''interrupted''), (''summary'', JStr ''Run interrupted'')]"

definition agent_output :: "'w BaseAgent \<Rightarrow> json \<Rightarrow> AgentOutput" where
  "agent_output a r = \<lparr>out_role = role a, out_result = r, out_events = events a\<rparr>"

text \<open>
  One pass through the body of the \<open>while\<close> loop ends in \<open>continue\<close>, in \<open>break\<close>, in
  \<open>return\<close>, or in an exception that leaves \<open>_loop\<close>.
\<close>

datatype 'w step =
  Continue "'w BaseAgent"
| Break "'w BaseAgent"
| Return AgentOutput "'w BaseAgent"
| Raise raised "'w BaseAgent"

fun step_agent :: "'w step \<Rightarrow> 'w BaseAgent" where
  "step_agent (Continue a) = a"
| "step_agent (Break a) = a"
| "step_agent (Return out a) = a"
| "step_agent (Raise e a) = a"

definition after_client :: "'w client_ret \<Rightarrow> 'w BaseAgent \<Rightarrow> 'w BaseAgent" where
  "after_client r a =
     (let a1 = a\<lparr>world := c_world r\<rparr> in if c_interrupt r then interrupt a1 else a1)"

definition loop_body :: "pylib \<Rightarrow> 'w BaseAgent \<Rightarrow> 'w step" where
  "loop_body L a =
     (if interrupted a then Break (a\<lparr>done_flag := True, result := interrupted_result\<rparr>)
      else
        (let r = client a (messages a) (world a);
             a1 = after_client r a
         in case c_reply r of
              Inl e \<Rightarrow> Raise e a1
            | Inr response_content \<Rightarrow>
                if interrupted a1
                then Break (a1\<lparr>done_flag := True, result := interrupted_result\<rparr>)
                else
                  (let has_tool_use = list_ex is_tool_use response_content
                   in case process_blocks L response_content (a1, [], []) of
                        (Some e, (a2, text_parts, tool_results)) \<Rightarrow> Raise e a2
                      | (None, (a2, text_parts, tool_results)) \<Rightarrow>
                          if has_tool_use
                          then Continue
                                 (a2\<lparr>messages := messages a2 @
                                       [\<lparr>msg_role = ''assistant'',
                                         msg_content = Items (map Block response_content)\<rparr>,
                                        \<lparr>msg_role = ''user'',
                                         msg_content = Items tool_results\<rparr>]\<rparr>)
                          else
                            (let final_text = join [CHR 0x0A] text_parts
                             in if \<not> done_flag a2
                                then (case parse_output L final_text of
                                        Inl e \<Rightarrow> Raise e a2
                                      | Inr v \<Rightarrow>
                                          (let a3 = status_change ''completed'' (a2\<lparr>result := v\<rparr>)
                                           in Return (agent_output a3 (result a3)) a3))
                                else (let a3 = status_change ''completed'' a2
                                      in Return (agent_output a3 (result a3)) a3)))))"

definition after_loop :: "'w BaseAgent \<Rightarrow> (raised + AgentOutput) \<times> 'w BaseAgent" where
  \<comment> \<open>the code after the \<open>while\<close> loop\<close>
  "after_loop a =
     (if done_flag a
      then (let a1 = status_change ''completed'' a in (Inr (agent_output a1 (result a1)), a1))
      else (let a1 = emit ''error''
                       (JObj [(''message'',
                               JStr (''Max iterations ('' @ show_int (max_iterations a)
                                     @ '') reached''))]) a
            in (Inr (agent_output a1 (JObj [(''error'', JStr ''max_iterations_reached'')])), a1)))"

function loop_from ::
  "pylib \<Rightarrow> int \<Rightarrow> 'w BaseAgent \<Rightarrow> (raised + AgentOutput) \<times> 'w BaseAgent" where
  \<comment> \<open>the \<open>while\<close> loop of \<open>_loop\<close> with \<open>iterations\<close> at its current count, and the
      code that follows it\<close>
  "loop_from L iterations a =
     (if iterations < max_iterations a \<and> \<not> done_flag a
      then (case loop_body L a of
              Continue a' \<Rightarrow> loop_from L (iterations + 1) a'
            | Break a' \<Rightarrow> after_loop a'
            | Return out a' \<Rightarrow> (Inr out, a')
            | Raise e a' \<Rightarrow> (Inl e, a'))
      else after_loop a)"
  by pat_completeness auto
termination
proof (relation "measure (\<lambda>(L, iterations, a). nat (max_iterations a - iterations))")
  show "wf (measure (\<lambda>(L :: pylib, iterations, a :: 'w BaseAgent).
              nat (max_iterations a - iterations)))"
    by simp
next
  fix L iterations and a a' :: "'w BaseAgent"
  assume c: "iterations < max_iterations a \<and> \<not> done_flag a"
    and b: "loop_body L a = Continue a'"
  have blk: "max_iterations a2 = max_iterations a1"
    if "process_block L bl (a1, tp, tr) = (e, (a2, tp2, tr2))"
    for bl e tp tr tp2 tr2 and a1 a2 :: "'w BaseAgent"
    using that
    by (cases bl)
       (auto simp: emit_def record_result_def after_handler_def mark_done_def interrupt_def
                   Let_def
             split: option.splits sum.splits returned.splits if_splits)
  have blks: "max_iterations a2 = max_iterations a1"
    if "process_blocks L bs (a1, tp, tr) = (e, (a2, tp2, tr2))"
    for bs e tp tr tp2 tr2 and a1 a2 :: "'w BaseAgent"
    using that
  proof (induction bs arbitrary: a1 tp tr)
    case Nil
    then show ?case by simp
  next
    case (Cons bl bs)
    obtain e1 a3 tp3 tr3 where s: "process_block L bl (a1, tp, tr) = (e1, (a3, tp3, tr3))"
      by (metis prod_cases3)
    have m: "max_iterations a3 = max_iterations a1" using s by (rule blk)
    show ?case
    proof (cases e1)
      case None
      with Cons.prems s have "process_blocks L bs (a3, tp3, tr3) = (e, (a2, tp2, tr2))" by simp
      then show ?thesis using Cons.IH m by simp
    next
      case (Some x)
      with Cons.prems s m show ?thesis by simp
    qed
  qed
  have "max_iterations a' = max_iterations a"
    using b
    by (auto simp: loop_body_def after_client_def interrupt_def status_change_def emit_def Let_def
             split: if_splits sum.splits prod.splits option.splits
             dest: blks)
  then show "((L, iterations + 1, a'), (L, iterations, a))
               \<in> measure (\<lambda>(L, iterations, a). nat (max_iterations a - iterations))"
    using c by simp
qed

definition loop :: "pylib \<Rightarrow> 'w BaseAgent \<Rightarrow> (raised + AgentOutput) \<times> 'w BaseAgent" where
  \<comment> \<open>\<open>_loop\<close>\<close>
  "loop L a = loop_from L 0 a"

definition run :: "pylib \<Rightarrow> json \<Rightarrow> 'w BaseAgent \<Rightarrow> (raised + AgentOutput) \<times> 'w BaseAgent" where
  "run L context a =
     (case json_dumps L context of
        Inl e \<Rightarrow> (Inl (Exception e), a)
      | Inr s \<Rightarrow>
          loop L (status_change ''started''
                    (a\<lparr>messages := [\<lparr>msg_role = ''user'', msg_content = Text s\<rparr>],
                      done_flag := False\<rparr>)))"

definition resume_prepare :: "string \<Rightarrow> 'w BaseAgent \<Rightarrow> 'w BaseAgent" where
  \<comment> \<open>\<open>resume\<close> up to its last line, the call of \<open>_loop\<close>\<close>
  "resume_prepare user_message a =
     (let a1 =
        (if messages a \<noteq> [] \<and> msg_role (last (messages a)) = ''user''
         then (case msg_content (last (messages a)) of
                 Items l \<Rightarrow>
                   a\<lparr>messages := butlast (messages a) @
                         [(last (messages a))\<lparr>msg_content := Items (l @ [TextItem user_message])\<rparr>]\<rparr>
               | Text t \<Rightarrow>
                   a\<lparr>messages := butlast (messages a) @
                         [(last (messages a))
                            \<lparr>msg_content := Text (t @ [CHR 0x0A, CHR 0x0A] @ user_message)\<rparr>]\<rparr>)
         else a\<lparr>messages := messages a @
                   [\<lparr>msg_role = ''user'', msg_content = Text user_message\<rparr>]\<rparr>)
      in status_change ''resumed'' (a1\<lparr>done_flag := False, events := []\<rparr>))"

definition resume ::
  "pylib \<Rightarrow> string \<Rightarrow> 'w BaseAgent \<Rightarrow> (raised + AgentOutput) \<times> 'w BaseAgent" where
  "resume L user_message a = loop L (resume_prepare user_message a)"

section \<open>The event bus (events.py)\<close>

text \<open>
  One subscription is one queue. What the subscriber's generator does is decided by how
  its successive waits \<open>asyncio.wait_for(queue.get(), timeout=30)\<close> end: with an event
  that was published to the queue, or with \<open>asyncio.TimeoutError\<close>. The generator is
  run against the list of these outcomes, up to the point where its consumer stops
  asking; the result is what it yielded, and whether it has finished (its \<open>finally\<close>
  block has taken the queue out of the bus).
\<close>

datatype wait = Arrived json | TimedOut

definition keepalive :: "string \<Rightarrow> json" where
  \<comment> \<open>the record of the \<open>except\<close> clause, with the clock's reading\<close>
  "keepalive now = JObj [(''type'', JStr ''keepalive''), (''timestamp'', JStr now)]"

fun subscribe :: "string \<Rightarrow> wait list \<Rightarrow> json list \<times> bool" where
  \<comment> \<open>the \<open>while True\<close> loop stands inside the \<open>try\<close>, so the timeout leaves the loop\<close>
  "subscribe now [] = ([], False)"
| "subscribe now (Arrived event # waits) =
     (case subscribe now waits of (ys, fin) \<Rightarrow> (event # ys, fin))"
| "subscribe now (TimedOut # waits) = ([keepalive now], True)"

section \<open>The controller (orchestrator.py)\<close>

text \<open>
  \<open>RunStatus\<close> and \<open>SessionStatus\<close> are two enumerations with the same four members.
\<close>

datatype Status = pending | running | completed | failed

text \<open>
  What \<open>Orchestrator.run\<close> changes: the status of the run row and of the session row, the
  events handed to the event callback (its own, and the agent's, which
  \<open>_agent_event_handler\<close> forwards), the event rows and diff artifacts it stores, the
  pull-request columns of the run, its \<open>_interrupted\<close> flag, and whether it is kept in
  \<open>_active_sessions\<close>. The rows of the run and of the session exist and the artifact
  directory can be written, so the calls that store rows and artifacts return. What the
  sub-agents hand to the event callback from inside a tool is part of the world.
\<close>

record Orchestrator =
  run_status :: Status
  session_status :: Status
  emitted :: "AgentEvent list"
  persisted :: "AgentEvent list"
  artifacts :: "(string \<times> string \<times> json) list"
  run_pr_url :: json
  run_pr_number :: json
  o_interrupted :: bool
  active :: bool

text \<open>
  The sandbox provider as the controller uses it: \<open>create\<close> clones the repository or
  raises, and \<open>git diff HEAD\<close> through \<open>run_command\<close> gives its stdout or raises.
\<close>

record 'w provider =
  sandbox_create :: "string \<Rightarrow> 'w \<Rightarrow> raised option \<times> 'w"
  git_diff :: "'w \<Rightarrow> (raised + string) \<times> 'w"

definition o_emit :: "string \<Rightarrow> string \<Rightarrow> json \<Rightarrow> Orchestrator \<Rightarrow> Orchestrator" where
  \<comment> \<open>\<open>_emit_event\<close>\<close>
  "o_emit r etype data st =
     st\<lparr>emitted := emitted st @ [\<lparr>ev_role = r, ev_type = etype, ev_data = data\<rparr>]\<rparr>"

definition o_persist :: "string \<Rightarrow> string \<Rightarrow> json \<Rightarrow> Orchestrator \<Rightarrow> Orchestrator" where
  \<comment> \<open>\<open>_persist_event\<close>\<close>
  "o_persist r etype data st =
     st\<lparr>persisted := persisted st @ [\<lparr>ev_role = r, ev_type = etype, ev_data = data\<rparr>]\<rparr>"

definition update_status :: "Status \<Rightarrow> Orchestrator \<Rightarrow> Orchestrator" where
  \<comment> \<open>\<open>_update_run_status\<close>, then \<open>_update_session_status\<close>\<close>
  "update_status s st = st\<lparr>run_status := s, session_status := s\<rparr>"

fun type_name :: "json \<Rightarrow> string" where
  \<comment> \<open>\<open>type(value).__name__\<close>\<close>
  "type_name JNull = ''NoneType''"
| "type_name (JBool b) = ''bool''"
| "type_name (JInt i) = ''int''"
| "type_name (JStr s) = ''str''"
| "type_name (JArr l) = ''list''"
| "type_name (JObj kv) = ''dict''"

fun py_get :: "json \<Rightarrow> string \<Rightarrow> json \<Rightarrow> raised + json" where
  \<comment> \<open>\<open>value.get(key, default)\<close>: only a dict has the method, and the others raise
      \<open>AttributeError\<close>\<close>
  "py_get (JObj kv) k d = Inr (case map_of kv k of None \<Rightarrow> d | Some v \<Rightarrow> v)"
| "py_get v k d =
     Inl (Exception (quote (type_name v) @ '' object has no attribute '' @ quote ''get''))"

fun truthy :: "json \<Rightarrow> bool" where
  "truthy JNull = False"
| "truthy (JBool b) = b"
| "truthy (JInt i) = (i \<noteq> 0)"
| "truthy (JStr s) = (s \<noteq> [])"
| "truthy (JArr l) = (l \<noteq> [])"
| "truthy (JObj kv) = (kv \<noteq> [])"

definition status_data :: "string \<Rightarrow> json" where
  "status_data s = JObj [(''status'', JStr s)]"

definition after_agent ::
  "'w provider \<Rightarrow> AgentOutput \<Rightarrow> 'w BaseAgent \<Rightarrow> Orchestrator
     \<Rightarrow> (raised + json) \<times> Orchestrator \<times> 'w BaseAgent" where
  \<comment> \<open>the \<open>try\<close> block of \<open>run\<close> from the line after \<open>self._agent.run\<close> returned\<close>
  "after_agent P out a st =
     (let st1 = st\<lparr>persisted := persisted st @ out_events out\<rparr>
      in case git_diff P (world a) of
           (Inl e, w) \<Rightarrow> (Inl e, st1, a\<lparr>world := w\<rparr>)
         | (Inr diff, w) \<Rightarrow>
             (let a1 = a\<lparr>world := w\<rparr>;
                  saved =
                    (if diff \<noteq> []
                     then (case py_get (out_result out) ''summary'' (JStr []) of
                             Inl e \<Rightarrow> Inl e
                           | Inr s \<Rightarrow>
                               Inr (st1\<lparr>artifacts := artifacts st1 @
                                          [(''changes'', diff, JObj [(''summary'', s)])]\<rparr>))
                     else Inr st1)
              in case saved of
                   Inl e \<Rightarrow> (Inl e, st1, a1)
                 | Inr st2 \<Rightarrow>
                     (case py_get (out_result out) ''pr_url'' JNull of
                        Inl e \<Rightarrow> (Inl e, st2, a1)
                      | Inr pr_url \<Rightarrow>
                          (case py_get (out_result out) ''pr_number'' JNull of
                             Inl e \<Rightarrow> (Inl e, st2, a1)
                           | Inr pr_number \<Rightarrow>
                               (let st3 = (if truthy pr_url \<or> truthy pr_number
                                           then st2\<lparr>run_pr_url := pr_url,
                                                    run_pr_number := pr_number\<rparr>
                                           else st2);
                                    st4 = o_emit ''orchestrator'' ''status_change''
                                            (status_data ''completed'')
                                            (update_status completed st3)
                                in case py_get (out_result out) ''summary'' JNull of
                                     Inl e \<Rightarrow> (Inl e, st4, a1)
                                   | Inr summary \<Rightarrow>
                                       (Inr (JObj [(''status'', JStr ''completed''),
                                                   (''summary'', summary),
                                                   (''pr_url'', pr_url),
                                                   (''pr_number'', pr_number)]),
                                        st4\<lparr>active := True\<rparr>, a1))))))"

subsection \<open>The controller's agent (tools/github.py, agents/agent.py)\<close>

definition repo_tail :: "string \<Rightarrow> string option" where
  \<comment> \<open>\<open>(.+?)(?:\.git)?$\<close> matched against the whole rest of the URL, and its group: one or
      more characters other than a line feed, as few as can be, up to an optional \<open>.git\<close>
      and the end of the string or a line feed that ends it\<close>
  "repo_tail r =
     (let y = (if r \<noteq> [] \<and> last r = CHR 0x0A then butlast r else r)
      in if y = [] \<or> CHR 0x0A \<in> set y then None
         else Some (if 4 < length y \<and> drop (length y - 4) y = ''.git''
                    then take (length y - 4) y else y))"

definition repo_at :: "string \<Rightarrow> string option" where
  \<comment> \<open>the pattern \<open>github\.com[/:](.+?)(?:\.git)?$\<close> matched at the start of a string\<close>
  "repo_at s =
     (if take 10 s = ''github.com'' \<and> (take 1 (drop 10 s) = ''/'' \<or> take 1 (drop 10 s) = '':'')
      then repo_tail (drop 11 s) else None)"

fun repo_search :: "string \<Rightarrow> string option" where
  \<comment> \<open>\<open>re.search\<close> with that pattern: the match at the leftmost place that has one\<close>
  "repo_search [] = None"
| "repo_search (c # cs) =
     (case repo_at (c # cs) of Some g \<Rightarrow> Some g | None \<Rightarrow> repo_search cs)"

definition strip_slashes :: "string \<Rightarrow> string" where
  \<comment> \<open>\<open>s.strip("/")\<close>\<close>
  "strip_slashes s =
     rev (dropWhile (\<lambda>c. c = CHR ''/'') (rev (dropWhile (\<lambda>c. c = CHR ''/'') s)))"

definition extract_repo_full_name :: "string \<Rightarrow> raised + string" where
  \<comment> \<open>\<open>Inl\<close> is the \<open>ValueError\<close>\<close>
  "extract_repo_full_name repo_url =
     (case repo_search repo_url of
        None \<Rightarrow> Inl (Exception (''Cannot parse repo name from URL: '' @ repo_url))
      | Some g \<Rightarrow> Inr (strip_slashes g))"

text \<open>
  What \<open>create_orchestrator_agent\<close> is handed and does not make itself: the model client
  that the constructor of \<open>BaseAgent\<close> opens, and what awaiting each of the eight closures
  over the sandbox does (they call the sandbox provider, the GitHub helpers and the
  sub-agents), given the name of the repository and the name of the tool.
\<close>

record 'w services =
  anthropic :: "message list \<Rightarrow> 'w \<Rightarrow> 'w client_ret"
  closures :: "string \<Rightarrow> string \<Rightarrow> json \<Rightarrow> 'w \<Rightarrow> 'w handler_ret"

definition handle_complete :: "json \<Rightarrow> 'w \<Rightarrow> 'w handler_ret" where
  \<comment> \<open>\<open>_handle_complete(**kwargs)\<close>: \<open>agent.mark_done(kwargs)\<close>, with no point at which it
      is suspended; an input that is no dict cannot be unpacked (\<open>TypeError\<close>)\<close>
  "handle_complete binput w =
     (case binput of
        JObj kv \<Rightarrow>
          \<lparr>h_outcome = Inr (RetStr ''Session complete.''), h_mark_done = Some (JObj kv),
           h_interrupt = False, h_world = w\<rparr>
      | _ \<Rightarrow>
          \<lparr>h_outcome =
             Inl (Exception
                    (''backend.agents.agent.create_orchestrator_agent.<locals>._handle_complete()''
                     @ '' argument after ** must be a mapping, not '' @ type_name binput)),
           h_mark_done = None, h_interrupt = False, h_world = w\<rparr>)"

definition string_schema :: "string \<Rightarrow> json" where
  \<comment> \<open>\<open>{"type": "string", "description": d}\<close>\<close>
  "string_schema d = JObj [(''type'', JStr ''string''), (''description'', JStr d)]"

definition object_schema :: "(string \<times> json) list \<Rightarrow> string list \<Rightarrow> json" where
  \<comment> \<open>\<open>{"type": "object", "properties": props, "required": required}\<close>\<close>
  "object_schema props required =
     JObj [(''type'', JStr ''object''), (''properties'', JObj props),
           (''required'', JArr (map JStr required))]"

definition orchestrator_tools :: "'w services \<Rightarrow> string \<Rightarrow> 'w ToolDef list" where
  \<comment> \<open>the \<open>tools\<close> argument of the constructor\<close>
  "orchestrator_tools S repo_full_name =
     [\<lparr>tool_name = ''read_file'',
       description = ''Read a file from the repository. Use relative paths from repo root.'',
       input_schema = object_schema [(''path'', string_schema ''Relative file path'')] [''path''],
       handler = closures S repo_full_name ''read_file''\<rparr>,
      \<lparr>tool_name = ''list_directory'',
       description = ''List files and subdirectories. Use '' @ quote ''.'' @ '' for root.'',
       input_schema =
         object_schema [(''path'', JObj [(''type'', JStr ''string''), (''default'', JStr ''.'')])] [],
       handler = closures S repo_full_name ''list_directory''\<rparr>,
      \<lparr>tool_name = ''run_command'',
       description =
         ''Run a shell command in the repository workspace (read-only exploration, grep, find, etc.).'',
       input_schema = object_schema [(''command'', JObj [(''type'', JStr ''string'')])] [''command''],
       handler = closures S repo_full_name ''run_command''\<rparr>,
      \<lparr>tool_name = ''run_implementer'',
       description =
         ''Spawn an implementer sub-agent to make code changes. Pass a clear task description and any relevant file contents you''
         @ [CHR 0x27] @ ''ve already read as context.'',
       input_schema =
         object_schema
           [(''task'', string_schema ''Detailed task description for the implementer''),
            (''context'',
             JObj [(''type'', JStr ''string''),
                   (''description'', JStr ''File contents or other context the implementer needs''),
                   (''default'', JStr [])])]
           [''task''],
       handler = closures S repo_full_name ''run_implementer''\<rparr>,
      \<lparr>tool_name = ''run_verifier'',
       description =
         ''Spawn a verifier sub-agent to test changes and visual behavior against user intent.'',
       input_schema =
         object_schema
           [(''install_command'',
             string_schema (''Command to install dependencies (e.g. '' @ quote ''npm install'' @ '')'')),
            (''test_command'',
             string_schema (''Command to run tests (e.g. '' @ quote ''pytest'' @ '')'')),
            (''verification_goal'',
             string_schema (''What the final behavior/UI should look like from the user''
                            @ [CHR 0x27] @ ''s perspective''))]
           [],
       handler = closures S repo_full_name ''run_verifier''\<rparr>,
      \<lparr>tool_name = ''create_branch'',
       description = ''Create and checkout a new git branch.'',
       input_schema =
         object_schema [(''branch_name'', JObj [(''type'', JStr ''string'')])] [''branch_name''],
       handler = closures S repo_full_name ''create_branch''\<rparr>,
      \<lparr>tool_name = ''commit_and_push'',
       description = ''Stage all changes, commit, and push to remote.'',
       input_schema = object_schema [(''message'', string_schema ''Commit message'')] [''message''],
       handler = closures S repo_full_name ''commit_and_push''\<rparr>,
      \<lparr>tool_name = ''create_pr'',
       description = ''Create a GitHub pull request.'',
       input_schema =
         object_schema
           [(''title'', JObj [(''type'', JStr ''string'')]),
            (''body'', string_schema ''PR body with description of changes'')]
           [''title'', ''body''],
       handler = closures S repo_full_name ''create_pr''\<rparr>,
      \<lparr>tool_name = ''complete'',
       description =
         ''Signal that you are done. Call this when you have finished the entire task. Include a summary and any relevant output.'',
       input_schema =
         object_schema
           [(''summary'', string_schema ''Summary of what was accomplished''),
            (''pr_url'', string_schema ''PR URL if one was created''),
            (''pr_number'',
             JObj [(''type'', JStr ''integer''),
                   (''description'', JStr ''PR number if one was created'')])]
           [''summary''],
       handler = handle_complete\<rparr>]"

definition create_orchestrator_agent :: "'w services \<Rightarrow> string \<Rightarrow> 'w \<Rightarrow> raised + 'w BaseAgent" where
  \<comment> \<open>the name of the repository is taken from the URL first, which can raise; the system
      prompt is a constant of the client's calls\<close>
  "create_orchestrator_agent S repo_url w =
     (case extract_repo_full_name repo_url of
        Inl e \<Rightarrow> Inl e
      | Inr repo_full_name \<Rightarrow>
          Inr \<lparr>role = ''orchestrator'', max_iterations = 60,
               tools = orchestrator_tools S repo_full_name, client = anthropic S,
               events = [], messages = [], done_flag = False, result = JObj [],
               interrupted = False, world = w\<rparr>)"

subsection \<open>\<open>Orchestrator.run\<close>\<close>

definition try_run ::
  "pylib \<Rightarrow> 'w provider \<Rightarrow> 'w services \<Rightarrow> string \<Rightarrow> string \<Rightarrow> 'w \<Rightarrow> Orchestrator
     \<Rightarrow> (raised + json) \<times> Orchestrator \<times> 'w BaseAgent option \<times> 'w" where
  \<comment> \<open>the \<open>try\<close> block of \<open>run\<close>, from the world \<open>w0\<close>; it gives what the block returns or
      raises, the controller, its agent (\<open>None\<close> before there is one) and the world\<close>
  "try_run L P S repo_url prompt w0 st =
     (let st1 = o_emit ''orchestrator'' ''status_change'' (status_data ''cloning_repo'')
                  (o_emit ''orchestrator'' ''status_change'' (status_data ''starting'')
                     (update_status running st))
      in case sandbox_create P repo_url w0 of
           (Some e, w) \<Rightarrow> (Inl e, st1, None, w)
         | (None, w) \<Rightarrow>
             (case create_orchestrator_agent S repo_url w of
                Inl e \<Rightarrow> (Inl e, st1, None, w)
              | Inr a0 \<Rightarrow>
                  (let (r, a1) = run L (JObj [(''prompt'', JStr prompt), (''repo_url'', JStr repo_url)]) a0;
                       st2 = st1\<lparr>emitted := emitted st1 @ drop (length (events a0)) (events a1)\<rparr>
                   in case r of
                        Inl e \<Rightarrow> (Inl e, st2, Some a1, world a1)
                      | Inr out \<Rightarrow>
                          (case after_agent P out a1 st2 of
                             (res, st3, a2) \<Rightarrow> (res, st3, Some a2, world a2)))))"

definition interrupted_stop :: "Orchestrator \<Rightarrow> json \<times> Orchestrator" where
  "interrupted_stop st =
     (JObj [(''status'', JStr ''interrupted''), (''error'', JStr ''Run interrupted by user'')],
      update_status completed
        (o_persist ''orchestrator'' ''status_change'' (status_data ''interrupted'')
           (o_emit ''orchestrator'' ''status_change'' (status_data ''interrupted'') st)))"

definition orchestrator_run ::
  "pylib \<Rightarrow> 'w provider \<Rightarrow> 'w services \<Rightarrow> string \<Rightarrow> string \<Rightarrow> 'w \<Rightarrow> Orchestrator
     \<Rightarrow> (raised + json) \<times> Orchestrator \<times> 'w BaseAgent option \<times> 'w" where
  \<comment> \<open>\<open>Orchestrator.run\<close>: the \<open>try\<close> block and its \<open>except\<close> clauses\<close>
  "orchestrator_run L P S repo_url prompt w0 st =
     (case try_run L P S repo_url prompt w0 st of
        (Inr res, st1, a, w) \<Rightarrow> (Inr res, st1, a, w)
      | (Inl CancelledError, st1, a, w) \<Rightarrow>
          (let (res, st2) = interrupted_stop (st1\<lparr>o_interrupted := True\<rparr>) in (Inr res, st2, a, w))
      | (Inl (Exception exc), st1, a, w) \<Rightarrow>
          (if o_interrupted st1
           then (let (res, st2) = interrupted_stop st1 in (Inr res, st2, a, w))
           else (Inr (JObj [(''status'', JStr ''failed''), (''error'', JStr exc)]),
                 update_status failed
                   (o_persist ''orchestrator'' ''error'' (JObj [(''message'', JStr exc)])
                      (o_emit ''orchestrator'' ''error'' (JObj [(''message'', JStr exc)]) st1)),
                 a, w))
      | (Inl (BaseException exc), st1, a, w) \<Rightarrow> (Inl (BaseException exc), st1, a, w))"
section \<open>The local sandbox (sandbox/local.py, agents/implementer.py, tools/filesystem.py)\<close>

subsection \<open>Paths as \<open>pathlib\<close> has them\<close>

text \<open>
  A \<open>PurePosixPath\<close> is its root (empty, \<open>/\<close> or \<open>//\<close>) and its parts after the root.
  Parsing drops empty parts and \<open>.\<close> and keeps \<open>..\<close>: \<open>pathlib\<close> never resolves \<open>..\<close>
  by itself.
\<close>

record path =
  root :: string
  names :: "string list"

fun split_on :: "char \<Rightarrow> string \<Rightarrow> string list" where
  \<comment> \<open>\<open>s.split(sep)\<close>\<close>
  "split_on sep [] = [ [] ]"
| "split_on sep (c # cs) =
     (if c = sep then [] # split_on sep cs
      else (case split_on sep cs of
              [] \<Rightarrow> [ [c] ]
            | w # ws \<Rightarrow> (c # w) # ws))"

definition parse_path :: "string \<Rightarrow> path" where
  \<comment> \<open>\<open>posixpath.splitroot\<close>, then the parts but the empty ones and \<open>.\<close>\<close>
  "parse_path s =
     (let r = (if take 1 s \<noteq> ''/'' then []
               else if take 1 (drop 1 s) \<noteq> ''/'' \<or> take 1 (drop 2 s) = ''/'' then ''/''
               else ''//'')
      in \<lparr>root = r,
          names = filter (\<lambda>x. x \<noteq> [] \<and> x \<noteq> ''.'') (split_on CHR ''/'' (drop (length r) s))\<rparr>)"

definition joinpath :: "path \<Rightarrow> path \<Rightarrow> path" where
  \<comment> \<open>\<open>a / b\<close>: a second path with a root replaces the first\<close>
  "joinpath a b = (if root b \<noteq> [] then b else \<lparr>root = root a, names = names a @ names b\<rparr>)"

definition is_prefix :: "string list \<Rightarrow> string list \<Rightarrow> bool" where
  "is_prefix xs ys = (take (length xs) ys = xs)"

definition is_relative_to :: "path \<Rightarrow> path \<Rightarrow> bool" where
  \<comment> \<open>\<open>self.is_relative_to(other)\<close>: \<open>other\<close> is \<open>self\<close> or one of \<open>self.parents\<close>, which are
      the paths with the same root and a shorter run of the same parts\<close>
  "is_relative_to self other = (root other = root self \<and> is_prefix (names other) (names self))"

definition relative_to :: "path \<Rightarrow> path \<Rightarrow> path" where
  \<comment> \<open>\<open>self.relative_to(other)\<close> where \<open>self.is_relative_to(other)\<close>\<close>
  "relative_to self other = \<lparr>root = [], names = drop (length (names other)) (names self)\<rparr>"

definition parent :: "path \<Rightarrow> path" where
  "parent p = p\<lparr>names := butlast (names p)\<rparr>"

definition path_str :: "path \<Rightarrow> string" where
  \<comment> \<open>\<open>str(p)\<close>\<close>
  "path_str p =
     (if root p = [] \<and> names p = [] then ''.''
      else root p @ join ''/'' (names p))"

subsection \<open>The file system\<close>

text \<open>
  The file system of the machine: the node at each canonical absolute path (its list of
  names from \<open>/\<close>), without symbolic links. A file is the text its bytes decode to as
  UTF-8, or, where they do not decode, the count of its bytes.
\<close>

datatype filedata = Utf8 string | Undecodable nat

datatype node = Dir | File filedata

type_synonym fs = "(string list \<times> node) list"

datatype error =
  PermissionError string
| FileNotFoundError string
| IsADirectoryError string
| NotADirectoryError string
| FileExistsError string
| UnicodeDecodeError

fun walk :: "fs \<Rightarrow> string list \<Rightarrow> string list \<Rightarrow> (string \<Rightarrow> error) + string list" where
  \<comment> \<open>the kernel's path resolution from a directory: each step is taken from an existing
      directory, and \<open>..\<close> steps up\<close>
  "walk fs cur [] = Inr cur"
| "walk fs cur (c # cs) =
     (case map_of fs cur of
        None \<Rightarrow> Inl FileNotFoundError
      | Some (File d) \<Rightarrow> Inl NotADirectoryError
      | Some Dir \<Rightarrow> walk fs (if c = ''..'' then butlast cur else cur @ [c]) cs)"

definition locate :: "fs \<Rightarrow> string list \<Rightarrow> path \<Rightarrow> (string \<Rightarrow> error) + string list" where
  \<comment> \<open>where a path leads; a path without a root starts at the working directory\<close>
  "locate fs cwd p = walk fs (if root p = [] then cwd else []) (names p)"

definition stat :: "fs \<Rightarrow> string list \<Rightarrow> path \<Rightarrow> error + node" where
  "stat fs cwd p =
     (case locate fs cwd p of
        Inl e \<Rightarrow> Inl (e (path_str p))
      | Inr q \<Rightarrow> (case map_of fs q of
                    None \<Rightarrow> Inl (FileNotFoundError (path_str p))
                  | Some n \<Rightarrow> Inr n))"

definition path_exists :: "fs \<Rightarrow> string list \<Rightarrow> path \<Rightarrow> bool" where
  \<comment> \<open>\<open>p.exists()\<close>\<close>
  "path_exists fs cwd p = (case stat fs cwd p of Inl e \<Rightarrow> False | Inr n \<Rightarrow> True)"

definition is_dir :: "fs \<Rightarrow> string list \<Rightarrow> path \<Rightarrow> bool" where
  \<comment> \<open>\<open>p.is_dir()\<close>\<close>
  "is_dir fs cwd p = (case stat fs cwd p of Inr Dir \<Rightarrow> True | _ \<Rightarrow> False)"

definition os_mkdir :: "fs \<Rightarrow> string list \<Rightarrow> path \<Rightarrow> error + fs" where
  \<comment> \<open>\<open>os.mkdir(p)\<close>: the place must be free, in a directory that exists\<close>
  "os_mkdir fs cwd p =
     (case locate fs cwd p of
        Inl e \<Rightarrow> Inl (e (path_str p))
      | Inr q \<Rightarrow> (case map_of fs q of
                    Some n \<Rightarrow> Inl (FileExistsError (path_str p))
                  | None \<Rightarrow> Inr (AList.update q Dir fs)))"

function mkdir_parents :: "fs \<Rightarrow> string list \<Rightarrow> path \<Rightarrow> error option \<times> fs" where
  \<comment> \<open>\<open>p.mkdir(parents=True, exist_ok=True)\<close>, as \<open>pathlib\<close> writes it: try, make the
      parent where that is what is missing, try again\<close>
  "mkdir_parents fs cwd p =
     (case os_mkdir fs cwd p of
        Inr fs' \<Rightarrow> (None, fs')
      | Inl (FileNotFoundError m) \<Rightarrow>
          (if names p = [] then (Some (FileNotFoundError m), fs)
           else (case mkdir_parents fs cwd (parent p) of
                   (Some e, fs1) \<Rightarrow> (Some e, fs1)
                 | (None, fs1) \<Rightarrow>
                     (case os_mkdir fs1 cwd p of
                        Inr fs2 \<Rightarrow> (None, fs2)
                      | Inl (FileNotFoundError m2) \<Rightarrow> (Some (FileNotFoundError m2), fs1)
                      | Inl e \<Rightarrow> (if is_dir fs1 cwd p then (None, fs1) else (Some e, fs1)))))
      | Inl e \<Rightarrow> (if is_dir fs cwd p then (None, fs) else (Some e, fs)))"
  by pat_completeness auto
termination
  by (relation "measure (\<lambda>(fs, cwd, p). length (names p))") (auto simp: parent_def)

fun universal_newlines :: "string \<Rightarrow> string" where
  \<comment> \<open>what reading in text mode does to line ends: \<open>\r\n\<close> and \<open>\r\<close> become \<open>\n\<close>\<close>
  "universal_newlines [] = []"
| "universal_newlines [c] = (if c = CHR 0x0D then [CHR 0x0A] else [c])"
| "universal_newlines (c # d # ds) =
     (if c = CHR 0x0D
      then (if d = CHR 0x0A then CHR 0x0A # universal_newlines ds
            else CHR 0x0A # universal_newlines (d # ds))
      else c # universal_newlines (d # ds))"

definition read_text :: "fs \<Rightarrow> string list \<Rightarrow> path \<Rightarrow> error + string" where
  \<comment> \<open>\<open>p.read_text()\<close>\<close>
  "read_text fs cwd p =
     (case stat fs cwd p of
        Inl e \<Rightarrow> Inl e
      | Inr Dir \<Rightarrow> Inl (IsADirectoryError (path_str p))
      | Inr (File (Utf8 t)) \<Rightarrow> Inr (universal_newlines t)
      | Inr (File (Undecodable n)) \<Rightarrow> Inl UnicodeDecodeError)"

definition write_text :: "fs \<Rightarrow> string list \<Rightarrow> path \<Rightarrow> string \<Rightarrow> error option \<times> fs" where
  \<comment> \<open>\<open>p.write_text(content)\<close>: on POSIX the text is written with its line ends as they
      are\<close>
  "write_text fs cwd p content =
     (case locate fs cwd p of
        Inl e \<Rightarrow> (Some (e (path_str p)), fs)
      | Inr q \<Rightarrow> (case map_of fs q of
                    Some Dir \<Rightarrow> (Some (IsADirectoryError (path_str p)), fs)
                  | _ \<Rightarrow> (None, AList.update q (File (Utf8 content)) fs)))"

definition unlink :: "fs \<Rightarrow> string list \<Rightarrow> path \<Rightarrow> error option \<times> fs" where
  \<comment> \<open>\<open>p.unlink()\<close>\<close>
  "unlink fs cwd p =
     (case locate fs cwd p of
        Inl e \<Rightarrow> (Some (e (path_str p)), fs)
      | Inr q \<Rightarrow> (case map_of fs q of
                    None \<Rightarrow> (Some (FileNotFoundError (path_str p)), fs)
                  | Some Dir \<Rightarrow> (Some (IsADirectoryError (path_str p)), fs)
                  | Some (File d) \<Rightarrow> (None, AList.delete q fs)))"

definition iterdir :: "fs \<Rightarrow> string list \<Rightarrow> path \<Rightarrow> error + path list" where
  \<comment> \<open>\<open>sorted(p.iterdir())\<close>: the children, ordered by their names\<close>
  "iterdir fs cwd p =
     (case locate fs cwd p of
        Inl e \<Rightarrow> Inl (e (path_str p))
      | Inr q \<Rightarrow> (case map_of fs q of
                    None \<Rightarrow> Inl (FileNotFoundError (path_str p))
                  | Some (File d) \<Rightarrow> Inl (NotADirectoryError (path_str p))
                  | Some Dir \<Rightarrow>
                      Inr (map (\<lambda>n. p\<lparr>names := names p @ [n]\<rparr>)
                             (sort (map (\<lambda>k. last k)
                                      (filter (\<lambda>k. k \<noteq> [] \<and> butlast k = q) (map fst fs)))))))"

definition file_size :: "fs \<Rightarrow> string list \<Rightarrow> path \<Rightarrow> nat" where
  \<comment> \<open>\<open>p.stat().st_size\<close> of a file whose bytes do not decode\<close>
  "file_size fs cwd p = (case stat fs cwd p of Inr (File (Undecodable n)) \<Rightarrow> n | _ \<Rightarrow> 0)"

subsection \<open>The sandbox operations\<close>

record Sandbox =
  workspace :: path

definition listing :: "fs \<Rightarrow> string list \<Rightarrow> Sandbox \<Rightarrow> path list \<Rightarrow> string list" where
  \<comment> \<open>each entry relative to the workspace, a directory with a trailing slash\<close>
  "listing fs cwd sandbox es =
     map (\<lambda>e. path_str (relative_to e (workspace sandbox)) @ (if is_dir fs cwd e then ''/'' else []))
       es"

definition read_file :: "fs \<Rightarrow> string list \<Rightarrow> Sandbox \<Rightarrow> string \<Rightarrow> error + string" where
  "read_file fs cwd sandbox p =
     (let target = joinpath (workspace sandbox) (parse_path p)
      in if \<not> is_relative_to target (workspace sandbox)
         then Inl (PermissionError (''Path escapes workspace: '' @ p))
         else if \<not> path_exists fs cwd target
         then Inl (FileNotFoundError (''Not found: '' @ p))
         else if is_dir fs cwd target
         then (case iterdir fs cwd target of
                 Inl e \<Rightarrow> Inl e
               | Inr es \<Rightarrow>
                   Inl (IsADirectoryError
                          (quote p @ '' is a directory. Contents:'' @ [CHR 0x0A]
                           @ join [CHR 0x0A] (take 50 (listing fs cwd sandbox es)))))
         else (case read_text fs cwd target of
                 Inl UnicodeDecodeError \<Rightarrow>
                   Inr (''[binary file, '' @ show_nat (file_size fs cwd target) @ '' bytes]'')
               | Inl e \<Rightarrow> Inl e
               | Inr t \<Rightarrow> Inr t))"

definition write_file ::
  "fs \<Rightarrow> string list \<Rightarrow> Sandbox \<Rightarrow> string \<Rightarrow> string \<Rightarrow> error option \<times> fs" where
  "write_file fs cwd sandbox p content =
     (let target = joinpath (workspace sandbox) (parse_path p)
      in if \<not> is_relative_to target (workspace sandbox)
         then (Some (PermissionError (''Path escapes workspace: '' @ p)), fs)
         else (case mkdir_parents fs cwd (parent target) of
                 (Some e, fs1) \<Rightarrow> (Some e, fs1)
               | (None, fs1) \<Rightarrow> write_text fs1 cwd target content))"

definition list_dir :: "fs \<Rightarrow> string list \<Rightarrow> Sandbox \<Rightarrow> string \<Rightarrow> error + string list" where
  "list_dir fs cwd sandbox p =
     (let target = joinpath (workspace sandbox) (parse_path p)
      in if \<not> is_relative_to target (workspace sandbox)
         then Inl (PermissionError (''Path escapes workspace: '' @ p))
         else (case iterdir fs cwd target of
                 Inl e \<Rightarrow> Inl e
               | Inr es \<Rightarrow> Inr (listing fs cwd sandbox es)))"

definition implementer_delete ::
  "fs \<Rightarrow> string list \<Rightarrow> Sandbox \<Rightarrow> string \<Rightarrow> (error + string) \<times> fs" where
  \<comment> \<open>\<open>_delete\<close> of \<open>create_implementer\<close>: no test of the path\<close>
  "implementer_delete fs cwd sandbox p =
     (let target = joinpath (workspace sandbox) (parse_path p)
      in if path_exists fs cwd target
         then (case unlink fs cwd target of
                 (Some e, fs1) \<Rightarrow> (Inl e, fs1)
               | (None, fs1) \<Rightarrow> (Inr (''Deleted '' @ p), fs1))
         else (Inr (p @ '' not found''), fs))"

definition delete_file ::
  "fs \<Rightarrow> string list \<Rightarrow> Sandbox \<Rightarrow> string \<Rightarrow> (error + string) \<times> fs" where
  \<comment> \<open>\<open>delete_file\<close> of tools/filesystem.py, which tests the path as the sandbox does\<close>
  "delete_file fs cwd sandbox p =
     (let target = joinpath (workspace sandbox) (parse_path p)
      in if \<not> is_relative_to target (workspace sandbox)
         then (Inl (PermissionError (''Path escapes workspace: '' @ p)), fs)
         else if path_exists fs cwd target
         then (case unlink fs cwd target of
                 (Some e, fs1) \<Rightarrow> (Inl e, fs1)
               | (None, fs1) \<Rightarrow> (Inr (''Deleted '' @ p), fs1))
         else (Inr (p @ '' not found''), fs))"

section \<open>Notions the properties are stated with\<close>

definition text_parts_of :: "block list \<Rightarrow> string list" where
  \<comment> \<open>the texts of the text blocks of a response, in order: what \<open>text_parts\<close> accumulates\<close>
  "text_parts_of bs = concat (map (\<lambda>b. case b of TextBlock t \<Rightarrow> [t] | _ \<Rightarrow> []) bs)"

definition message_events :: "string \<Rightarrow> block list \<Rightarrow> AgentEvent list" where
  \<comment> \<open>the \<open>agent_message\<close> events of the text blocks of a response\<close>
  "message_events r bs =
     map (\<lambda>t. \<lparr>ev_role = r, ev_type = ''agent_message'', ev_data = JObj [(''content'', JStr t)]\<rparr>)
       (text_parts_of bs)"

definition status_event :: "string \<Rightarrow> string \<Rightarrow> AgentEvent" where
  "status_event r suffix =
     \<lparr>ev_role = r, ev_type = ''status_change'',
      ev_data = JObj [(''status'', JStr (r @ ''_'' @ suffix))]\<rparr>"

definition tool_call_event :: "string \<Rightarrow> string \<Rightarrow> string \<Rightarrow> json \<Rightarrow> AgentEvent" where
  "tool_call_event r bid bname binput =
     \<lparr>ev_role = r, ev_type = ''tool_call'',
      ev_data = JObj [(''tool'', JStr bname), (''input'', binput), (''id'', JStr bid)]\<rparr>"

definition tool_result_event :: "string \<Rightarrow> string \<Rightarrow> string \<Rightarrow> string \<Rightarrow> AgentEvent" where
  "tool_result_event r bid bname text =
     \<lparr>ev_role = r, ev_type = ''tool_result'',
      ev_data = JObj [(''tool'', JStr bname), (''id'', JStr bid), (''result'', JStr text)]\<rparr>"

definition tool_events :: "AgentEvent list \<Rightarrow> AgentEvent list" where
  "tool_events es = filter (\<lambda>e. ev_type e = ''tool_call'' \<or> ev_type e = ''tool_result'') es"

definition event_id :: "AgentEvent \<Rightarrow> json option" where
  "event_id e = (case ev_data e of JObj kv \<Rightarrow> map_of kv ''id'' | _ \<Rightarrow> None)"

definition event_key :: "AgentEvent \<Rightarrow> string \<times> json option" where
  "event_key e = (ev_type e, event_id e)"




fun block_trace :: "block \<Rightarrow> (string \<times> json option) list" where
  "block_trace (ToolUseBlock bid bname binput) =
     [(''tool_call'', Some (JStr bid)), (''tool_result'', Some (JStr bid))]"
| "block_trace _ = []"

fun continues :: "pylib \<Rightarrow> nat \<Rightarrow> int \<Rightarrow> 'w BaseAgent \<Rightarrow> (int \<times> 'w BaseAgent) option" where
  \<comment> \<open>the count of iterations and the agent after \<open>k\<close> passes through the loop that each
      ended in \<open>continue\<close>\<close>
  "continues L 0 iterations a = Some (iterations, a)"
| "continues L (Suc k) iterations a =
     (if iterations < max_iterations a \<and> \<not> done_flag a
      then (case loop_body L a of
              Continue a' \<Rightarrow> continues L k (iterations + 1) a'
            | _ \<Rightarrow> None)
      else None)"

definition max_iterations_event :: "'w BaseAgent \<Rightarrow> AgentEvent" where
  \<comment> \<open>the \<open>error\<close> event of a loop that ran into its cap\<close>
  "max_iterations_event a =
     \<lparr>ev_role = role a, ev_type = ''error'',
      ev_data = JObj [(''message'',
                      JStr (''Max iterations ('' @ show_int (max_iterations a) @ '') reached''))]\<rparr>"

section \<open>Concrete agents, for the instances below\<close>

definition example_lib :: pylib where
  "example_lib =
     \<lparr>json_loads = (\<lambda>s. if s = ''{}'' then Some (JObj []) else None),
      json_dumps = (\<lambda>v. Inr ''{}'')\<rparr>"

definition scripted :: "block list list \<Rightarrow> message list \<Rightarrow> unit \<Rightarrow> unit client_ret" where
  \<comment> \<open>a model client that answers its n-th call with the n-th response of a script, and
      with an empty response after the script's end\<close>
  "scripted script msgs w =
     (let n = length (filter (\<lambda>m. msg_role m = ''assistant'') msgs)
      in \<lparr>c_reply = Inr (if n < length script then script ! n else []),
          c_interrupt = False, c_world = w\<rparr>)"

definition failing_tool :: "string \<Rightarrow> string \<Rightarrow> unit ToolDef" where
  \<comment> \<open>a tool whose handler raises an \<open>Exception\<close> with the given message\<close>
  "failing_tool n msg =
     \<lparr>tool_name = n, description = [], input_schema = JObj [],
      handler = (\<lambda>binput w. \<lparr>h_outcome = Inl (Exception msg), h_mark_done = None,
                              h_interrupt = False, h_world = w\<rparr>)\<rparr>"

definition example_agent ::
  "int \<Rightarrow> unit ToolDef list \<Rightarrow> block list list \<Rightarrow> message list \<Rightarrow> unit BaseAgent" where
  "example_agent cap ts script msgs =
     \<lparr>role = ''orchestrator'', max_iterations = cap, tools = ts, client = scripted script,
      events = [], messages = msgs, done_flag = False, result = JObj [],
      interrupted = False, world = ()\<rparr>"

definition long_text :: string where
  "long_text = replicate 5000 CHR ''x''"

definition example_provider :: "unit provider" where
  \<comment> \<open>a sandbox whose clone succeeds and whose working tree has no changes\<close>
  "example_provider =
     \<lparr>sandbox_create = (\<lambda>repo_url w. (None, w)), git_diff = (\<lambda>w. (Inr [], w))\<rparr>"

definition new_orchestrator :: Orchestrator where
  "new_orchestrator =
     \<lparr>run_status = pending, session_status = pending, emitted = [], persisted = [],
      artifacts = [], run_pr_url = JNull, run_pr_number = JNull, o_interrupted = False,
      active = False\<rparr>"

definition quiet_agent :: "unit BaseAgent" where
  \<comment> \<open>an agent whose model answers with an empty response\<close>
  "quiet_agent =
     example_agent 60 [] [ [] ] [\<lparr>msg_role = ''user'', msg_content = Text ''{}''\<rparr>]"

definition failing_agent :: "unit BaseAgent" where
  \<comment> \<open>an agent whose model asks once for the tool \<open>explode\<close>, which raises\<close>
  "failing_agent =
     example_agent 60 [failing_tool ''explode'' ''disk full'']
       [ [ToolUseBlock ''toolu_1'' ''explode'' (JObj [])] ]
       [\<lparr>msg_role = ''user'', msg_content = Text ''{}''\<rparr>]"

definition lost_agent :: "unit BaseAgent" where
  \<comment> \<open>an agent with a cap of two iterations whose model asks twice for a tool that is
      not registered\<close>
  "lost_agent =
     example_agent 2 []
       [ [ToolUseBlock ''toolu_1'' ''no_such_tool'' (JObj [])],
         [ToolUseBlock ''toolu_2'' ''no_such_tool'' (JObj [])] ]
       [\<lparr>msg_role = ''user'', msg_content = Text ''{}''\<rparr>]"

definition wandering :: "unit services" where
  \<comment> \<open>a model that asks for a listing of the directory at every turn and never calls
      \<open>complete\<close>, over a sandbox that answers each listing\<close>
  "wandering =
     \<lparr>anthropic =
        (\<lambda>msgs w. \<lparr>c_reply = Inr [ToolUseBlock (''toolu_'' @ show_nat (length msgs))
                                     ''list_directory'' (JObj [])],
                    c_interrupt = False, c_world = w\<rparr>),
      closures =
        (\<lambda>repo_full_name n binput w.
           \<lparr>h_outcome = Inr (RetStr ''README.md''), h_mark_done = None,
            h_interrupt = False, h_world = w\<rparr>)\<rparr>"

definition wanders :: "unit BaseAgent \<Rightarrow> bool" where
  \<comment> \<open>the controller's agent over those services, running\<close>
  "wanders a =
     (client a = anthropic wandering
      \<and> (\<exists>g. tools a = orchestrator_tools wandering g) \<and> max_iterations a = 60
      \<and> \<not> interrupted a \<and> \<not> done_flag a)"

definition example_url :: string where
  "example_url = ''https://github.com/acme/widgets.git''"

definition example_context :: json where
  "example_context = JObj [(''prompt'', JStr ''fix it''), (''repo_url'', JStr example_url)]"

definition example_fs :: fs where
  \<comment> \<open>a machine with \<open>/etc/passwd\<close> and a workspace \<open>/tmp/ramp_x/repo\<close> that holds a
      directory \<open>src\<close> and a file \<open>README.md\<close>\<close>
  "example_fs =
     [([], Dir),
      ([''etc''], Dir),
      ([''etc'', ''passwd''], File (Utf8 ''root:x:0:0'')),
      ([''tmp''], Dir),
      ([''tmp'', ''ramp_x''], Dir),
      ([''tmp'', ''ramp_x'', ''repo''], Dir),
      ([''tmp'', ''ramp_x'', ''repo'', ''src''], Dir),
      ([''tmp'', ''ramp_x'', ''repo'', ''README.md''], File (Utf8 ''hello''))]"

definition example_sandbox :: Sandbox where
  "example_sandbox = \<lparr>workspace = \<lparr>root = ''/'', names = [''tmp'', ''ramp_x'', ''repo'']\<rparr>\<rparr>"

section \<open>Properties\<close>

subsection \<open>What the block loop leaves alone\<close>

lemma process_block_messages:
  "process_block L b (a, tp, tr) = (e, (a', tp', tr')) \<Longrightarrow> messages a' = messages a"
  by (cases b)
     (auto simp: emit_def record_result_def after_handler_def mark_done_def interrupt_def Let_def
           split: option.splits sum.splits returned.splits if_splits)

lemma process_blocks_messages:
  "process_blocks L bs (a, tp, tr) = (e, (a', tp', tr')) \<Longrightarrow> messages a' = messages a"
proof (induction bs arbitrary: a tp tr)
  case Nil
  then show ?case by simp
next
  case (Cons b bs)
  obtain e1 a1 tp1 tr1 where b: "process_block L b (a, tp, tr) = (e1, (a1, tp1, tr1))"
    by (metis prod_cases3)
  have m1: "messages a1 = messages a"
    using b by (rule process_block_messages)
  show ?case
  proof (cases e1)
    case None
    with Cons.prems b have "process_blocks L bs (a1, tp1, tr1) = (e, (a', tp', tr'))" by simp
    then show ?thesis using Cons.IH m1 by simp
  next
    case (Some x)
    with Cons.prems b m1 show ?thesis by simp
  qed
qed

lemma loop_body_messages:
  "\<exists>rest. messages (step_agent (loop_body L a)) = messages a @ rest"
  by (auto simp: loop_body_def after_client_def interrupt_def status_change_def emit_def Let_def
           split: if_splits sum.splits prod.splits option.splits
           dest: process_blocks_messages)

lemma after_loop_messages: "messages (snd (after_loop a)) = messages a"
  by (simp add: after_loop_def status_change_def emit_def Let_def)

lemma loop_from_messages:
  "\<exists>rest. messages (snd (loop_from L iterations a)) = messages a @ rest"
proof (induction L iterations a rule: loop_from.induct)
  case (1 L iterations a)
  show ?case
  proof (cases "iterations < max_iterations a \<and> \<not> done_flag a")
    case False
    then show ?thesis by (subst loop_from.simps) (auto simp: after_loop_messages)
  next
    case True
    obtain rest where r: "messages (step_agent (loop_body L a)) = messages a @ rest"
      using loop_body_messages by blast
    show ?thesis
    proof (cases "loop_body L a")
      case (Continue a')
      then obtain rest' where
        "messages (snd (loop_from L (iterations + 1) a')) = messages a' @ rest'"
        using 1 True by blast
      then show ?thesis using True Continue r by (subst loop_from.simps) auto
    next
      case (Break a')
      then show ?thesis using True r by (subst loop_from.simps) (auto simp: after_loop_messages)
    next
      case (Return out a')
      then show ?thesis using True r by (subst loop_from.simps) auto
    next
      case (Raise e a')
      then show ?thesis using True r by (subst loop_from.simps) auto
    qed
  qed
qed

subsection \<open>A response without tool use\<close>

lemma process_blocks_no_tool_use:
  "\<not> list_ex is_tool_use bs \<Longrightarrow>
   process_blocks L bs (a, tp, tr) =
     (None, (a\<lparr>events := events a @ message_events (role a) bs\<rparr>, tp @ text_parts_of bs, tr))"
proof (induction bs arbitrary: a tp)
  case Nil
  then show ?case by (simp add: text_parts_of_def message_events_def)
next
  case (Cons b bs)
  then show ?case
    by (cases b) (simp_all add: text_parts_of_def message_events_def emit_def)
qed

lemma parse_output_empty:
  "json_loads L [] = None \<Longrightarrow> parse_output L [] = Inr (JObj [(''summary'', JStr [])])"
  by (simp add: parse_output_def fence_def)

subsection \<open>Tool events come in pairs\<close>




lemma tool_events_append: "tool_events (xs @ ys) = tool_events xs @ tool_events ys"
  by (simp add: tool_events_def)


lemma process_block_events:
  "process_block L b (a, tp, tr) = (e, (a', tp', tr')) \<Longrightarrow>
   \<exists>new. events a' = events a @ new \<and>
     (case e of
        None \<Rightarrow> map event_key (tool_events new) = block_trace b
      | Some x \<Rightarrow> map event_key (tool_events new) = take 1 (block_trace b) \<and> is_tool_use b)"
  by (cases b)
     (auto simp: emit_def record_result_def after_handler_def mark_done_def interrupt_def Let_def
                 tool_events_def event_key_def event_id_def
           split: option.splits sum.splits returned.splits if_splits)

lemma process_blocks_events:
  "process_blocks L bs (a, tp, tr) = (e, (a', tp', tr')) \<Longrightarrow>
   \<exists>new. events a' = events a @ new \<and>
     (case e of
        None \<Rightarrow> map event_key (tool_events new) = concat (map block_trace bs)
      | Some x \<Rightarrow> \<exists>pre b. is_tool_use b \<and>
          map event_key (tool_events new) = concat (map block_trace pre) @ take 1 (block_trace b))"
proof (induction bs arbitrary: a tp tr)
  case Nil
  then show ?case by (simp add: tool_events_def)
next
  case (Cons b bs)
  obtain e1 a1 tp1 tr1 where b: "process_block L b (a, tp, tr) = (e1, (a1, tp1, tr1))"
    by (metis prod_cases3)
  from process_block_events[OF b] obtain n1 where n1: "events a1 = events a @ n1"
    and k1: "(case e1 of
        None \<Rightarrow> map event_key (tool_events n1) = block_trace b
      | Some x \<Rightarrow> map event_key (tool_events n1) = take 1 (block_trace b) \<and> is_tool_use b)"
    by blast
  show ?case
  proof (cases e1)
    case None
    with Cons.prems b have rest: "process_blocks L bs (a1, tp1, tr1) = (e, (a', tp', tr'))" by simp
    from Cons.IH[OF rest] obtain n2 where n2: "events a' = events a1 @ n2"
      and k2: "(case e of
        None \<Rightarrow> map event_key (tool_events n2) = concat (map block_trace bs)
      | Some x \<Rightarrow> \<exists>pre b. is_tool_use b \<and>
          map event_key (tool_events n2) = concat (map block_trace pre) @ take 1 (block_trace b))"
      by blast
    have ev: "events a' = events a @ (n1 @ n2)" using n1 n2 by simp
    have k1': "map event_key (tool_events n1) = block_trace b" using k1 None by simp
    show ?thesis
    proof (cases e)
      case None
      then show ?thesis using ev k1' k2 by (auto simp: tool_events_append)
    next
      case (Some x)
      then obtain pre b' where "is_tool_use b'"
        "map event_key (tool_events n2) = concat (map block_trace pre) @ take 1 (block_trace b')"
        using k2 by auto
      then have "is_tool_use b' \<and> map event_key (tool_events (n1 @ n2)) =
          concat (map block_trace (b # pre)) @ take 1 (block_trace b')"
        using k1' by (simp add: tool_events_append)
      then have "\<exists>pre' bb. is_tool_use bb \<and> map event_key (tool_events (n1 @ n2)) =
          concat (map block_trace pre') @ take 1 (block_trace bb)"
        by blast
      then show ?thesis using ev Some by auto
    qed
  next
    case (Some x)
    with Cons.prems b have eq: "e = Some x" "a' = a1" by simp_all
    have "is_tool_use b \<and> map event_key (tool_events n1) =
          concat (map block_trace []) @ take 1 (block_trace b)"
      using k1 Some by simp
    then have "\<exists>pre' bb. is_tool_use bb \<and> map event_key (tool_events n1) =
          concat (map block_trace pre') @ take 1 (block_trace bb)"
      by blast
    then show ?thesis using n1 eq by auto
  qed
qed



lemma tool_events_status:
  "tool_events (events (status_change s a)) = tool_events (events a)"
  by (simp add: status_change_def emit_def tool_events_def)




subsection \<open>One block inside a response\<close>

lemma process_blocks_append:
  "process_blocks L (xs @ ys) st =
     (case process_blocks L xs st of
        (Some e, st') \<Rightarrow> (Some e, st')
      | (None, st') \<Rightarrow> process_blocks L ys st')"
  by (induction xs arbitrary: st) (auto split: prod.splits option.splits)

lemma process_block_static:
  "process_block L b (a, tp, tr) = (e, (a', tp', tr')) \<Longrightarrow>
   role a' = role a \<and> tools a' = tools a \<and> (\<exists>m. tr' = tr @ m)"
  by (cases b)
     (auto simp: emit_def record_result_def after_handler_def mark_done_def interrupt_def Let_def
           split: option.splits sum.splits returned.splits if_splits)

lemma process_blocks_static:
  "process_blocks L bs (a, tp, tr) = (e, (a', tp', tr')) \<Longrightarrow>
   role a' = role a \<and> tools a' = tools a \<and> (\<exists>m. tr' = tr @ m)"
proof (induction bs arbitrary: a tp tr)
  case Nil
  then show ?case by simp
next
  case (Cons b bs)
  obtain e1 a1 tp1 tr1 where b: "process_block L b (a, tp, tr) = (e1, (a1, tp1, tr1))"
    by (metis prod_cases3)
  note s1 = process_block_static[OF b]
  show ?case
  proof (cases e1)
    case None
    with Cons.prems b have "process_blocks L bs (a1, tp1, tr1) = (e, (a', tp', tr'))" by simp
    from Cons.IH[OF this] show ?thesis using s1 by auto
  next
    case (Some x)
    with Cons.prems b s1 show ?thesis by simp
  qed
qed

lemma block_reaches_next_turn:
  assumes ni: "\<not> interrupted a"
    and reply: "c_reply (client a (messages a) (world a)) = Inr (pre @ b # post)"
    and nci: "\<not> c_interrupt (client a (messages a) (world a))"
    and tu: "is_tool_use b"
    and pre: "process_blocks L pre (after_client (client a (messages a) (world a)) a, [], [])
                = (None, (a1, tp1, tr1))"
    and blk: "process_block L b (a1, tp1, tr1) = (None, (ab, tpb, trb))"
    and post: "fst (process_blocks L post (ab, tpb, trb)) = None"
  shows "role a1 = role a \<and> tools a1 = tools a \<and>
     (\<exists>a' trs. loop_body L a = Continue a'
        \<and> messages a' = messages a @
             [\<lparr>msg_role = ''assistant'', msg_content = Items (map Block (pre @ b # post))\<rparr>,
              \<lparr>msg_role = ''user'', msg_content = Items trs\<rparr>]
        \<and> set trb \<subseteq> set trs \<and> set (events ab) \<subseteq> set (events a'))"
proof -
  let ?r = "client a (messages a) (world a)"
  let ?a0 = "after_client ?r a"
  have a0: "?a0 = a\<lparr>world := c_world ?r\<rparr>" using nci by (simp add: after_client_def)
  obtain a2 tp2 tr2 where p2: "process_blocks L post (ab, tpb, trb) = (None, (a2, tp2, tr2))"
    using post by (metis fst_conv prod_cases3)
  have all: "process_blocks L (pre @ b # post) (?a0, [], []) = (None, (a2, tp2, tr2))"
    using pre blk p2 by (simp add: process_blocks_append)
  have s1: "role a1 = role a" "tools a1 = tools a"
    using process_blocks_static[OF pre] a0 by simp_all
  have m2: "messages a2 = messages a"
    using process_blocks_messages[OF all] a0 by simp
  obtain m where m: "tr2 = trb @ m" using process_blocks_static[OF p2] by blast
  obtain n where n: "events a2 = events ab @ n"
    using process_blocks_events[OF p2] by blast
  define content where "content = pre @ b # post"
  have htu: "list_ex is_tool_use content" using tu by (simp add: content_def)
  have reply': "c_reply ?r = Inr content" using reply by (simp add: content_def)
  have all': "process_blocks L content (a\<lparr>world := c_world ?r\<rparr>, [], []) = (None, (a2, tp2, tr2))"
    using all a0 by (simp add: content_def)
  have body: "loop_body L a = Continue
      (a2\<lparr>messages := messages a2 @
            [\<lparr>msg_role = ''assistant'', msg_content = Items (map Block content)\<rparr>,
             \<lparr>msg_role = ''user'', msg_content = Items tr2\<rparr>]\<rparr>)"
    using ni reply' all' htu a0 by (simp add: loop_body_def Let_def)
  show ?thesis using s1 body m2 m n by (auto simp: content_def)
qed

subsection \<open>The cut of the event text\<close>

lemma take_cut:
  assumes "5000 < length t"
  shows "take 5000 t \<noteq> t"
proof
  assume "take 5000 t = t"
  then have "length (take 5000 t) = length t" by (rule arg_cong)
  then show False using assms by simp
qed

lemma after_handler_keeps:
  "events (after_handler r a) = events a \<and> role (after_handler r a) = role a"
  by (simp add: after_handler_def mark_done_def interrupt_def Let_def split: option.splits)

subsection \<open>Reaching the cap\<close>

lemma continues_loop_from:
  "continues L k iterations a = Some (n, b) \<Longrightarrow> loop_from L iterations a = loop_from L n b"
proof (induction k arbitrary: iterations a)
  case 0
  then show ?case by simp
next
  case (Suc k)
  from Suc.prems have c: "iterations < max_iterations a \<and> \<not> done_flag a"
    by (simp split: if_splits)
  with Suc.prems obtain a' where b: "loop_body L a = Continue a'"
    and r: "continues L k (iterations + 1) a' = Some (n, b)"
    by (auto split: step.splits)
  have "loop_from L iterations a = loop_from L (iterations + 1) a'"
    using c b by (subst loop_from.simps) simp
  then show ?case using Suc.IH[OF r] by simp
qed

lemma loop_from_at_cap:
  assumes "max_iterations b \<le> n" and "\<not> done_flag b"
  shows "loop_from L n b =
     (Inr \<lparr>out_role = role b,
           out_result = JObj [(''error'', JStr ''max_iterations_reached'')],
           out_events = events b @ [max_iterations_event b]\<rparr>,
      b\<lparr>events := events b @ [max_iterations_event b]\<rparr>)"
  using assms
  by (subst loop_from.simps)
     (simp add: after_loop_def emit_def agent_output_def max_iterations_event_def Let_def)

lemma after_agent_completed:
  assumes "fst (git_diff P (world a)) = Inr d"
    and "out_result out = JObj [(''error'', JStr ''max_iterations_reached'')]"
  shows "\<exists>res st' a'. after_agent P out a st = (Inr res, st', a')
           \<and> run_status st' = completed \<and> session_status st' = completed"
proof -
  obtain w where g: "git_diff P (world a) = (Inr d, w)"
    using assms(1) by (cases "git_diff P (world a)") simp
  show ?thesis
    using g assms(2)
    by (simp add: after_agent_def Let_def update_status_def o_emit_def)
qed


lemma exhaustion_completed:
  assumes "sandbox_create P repo_url w0 = (None, w)"
    and "create_orchestrator_agent S repo_url w = Inr agent0"
    and "json_dumps L (JObj [(''prompt'', JStr prompt), (''repo_url'', JStr repo_url)]) = Inr s"
    and "continues L k 0
           (status_change ''started''
              (agent0\<lparr>messages := [\<lparr>msg_role = ''user'', msg_content = Text s\<rparr>],
                      done_flag := False\<rparr>)) = Some (n, b)"
    and "max_iterations b \<le> n" and "\<not> done_flag b"
    and "fst (git_diff P (world b)) = Inr d"
  shows "run L (JObj [(''prompt'', JStr prompt), (''repo_url'', JStr repo_url)]) agent0 =
           (Inr \<lparr>out_role = role b,
                 out_result = JObj [(''error'', JStr ''max_iterations_reached'')],
                 out_events = events b @ [max_iterations_event b]\<rparr>,
            b\<lparr>events := events b @ [max_iterations_event b]\<rparr>)
     \<and> (\<exists>res st' a' w'. orchestrator_run L P S repo_url prompt w0 st = (Inr res, st', a', w')
           \<and> run_status st' = completed \<and> session_status st' = completed)"
proof -
  let ?ctx = "JObj [(''prompt'', JStr prompt), (''repo_url'', JStr repo_url)]"
  let ?out = "\<lparr>out_role = role b,
                 out_result = JObj [(''error'', JStr ''max_iterations_reached'')],
                 out_events = events b @ [max_iterations_event b]\<rparr>"
  let ?b' = "b\<lparr>events := events b @ [max_iterations_event b]\<rparr>"
  have run: "run L ?ctx agent0 = (Inr ?out, ?b')"
    using assms(3) continues_loop_from[OF assms(4)] loop_from_at_cap[OF assms(5,6)]
    by (simp add: run_def loop_def)
  let ?st1 = "o_emit ''orchestrator'' ''status_change'' (status_data ''cloning_repo'')
                  (o_emit ''orchestrator'' ''status_change'' (status_data ''starting'')
                     (update_status running st))"
  let ?st2 = "?st1\<lparr>emitted := emitted ?st1 @ drop (length (events agent0)) (events ?b')\<rparr>"
  have "fst (git_diff P (world ?b')) = Inr d" using assms(7) by simp
  from after_agent_completed[OF this, of ?out ?st2]
  obtain res st' a' where aa: "after_agent P ?out ?b' ?st2 = (Inr res, st', a')"
    and rs: "run_status st' = completed" and ss: "session_status st' = completed"
    by auto
  have tried: "try_run L P S repo_url prompt w0 st = (Inr res, st', Some a', world a')"
    using assms(1,2) run aa by (simp add: try_run_def Let_def)
  have "orchestrator_run L P S repo_url prompt w0 st = (Inr res, st', Some a', world a')"
    using tried by (simp add: orchestrator_run_def)
  then have "\<exists>res st' a' w'. orchestrator_run L P S repo_url prompt w0 st = (Inr res, st', a', w')
           \<and> run_status st' = completed \<and> session_status st' = completed"
    using rs ss by blast
  then show ?thesis using run by simp
qed

subsection \<open>A model that never calls \<open>complete\<close>\<close>

lemma wandering_step:
  assumes "wanders a"
  shows "\<exists>a'. loop_body example_lib a = Continue a' \<and> wanders a'"
proof -
  from assms obtain g where t: "tools a = orchestrator_tools wandering g"
    and c: "client a = anthropic wandering" and m: "max_iterations a = 60"
    and i: "\<not> interrupted a" and d: "\<not> done_flag a"
    by (auto simp: wanders_def)
  have f: "find_tool (a\<lparr>events := es\<rparr>) ''list_directory'' =
             Some (orchestrator_tools wandering g ! 1)" for es
    by (simp add: find_tool_def t orchestrator_tools_def)
  have h: "handler (orchestrator_tools wandering g ! 1) = closures wandering g ''list_directory''"
    by (simp add: orchestrator_tools_def)
  show ?thesis
    using c m i d t
    by (simp add: loop_body_def after_client_def wandering_def Let_def emit_def f[simplified emit_def] h
          find_tool_def orchestrator_tools_def record_result_def after_handler_def wanders_def)
qed

lemma wandering_continues:
  "wanders a \<Longrightarrow> i + int k \<le> 60 \<Longrightarrow>
     \<exists>b. continues example_lib k i a = Some (i + int k, b) \<and> wanders b"
proof (induction k arbitrary: i a)
  case 0
  then show ?case by simp
next
  case (Suc k)
  from wandering_step[OF Suc.prems(1)] obtain a' where
    s: "loop_body example_lib a = Continue a'" and w: "wanders a'" by blast
  have c: "i < max_iterations a \<and> \<not> done_flag a"
    using Suc.prems by (simp add: wanders_def)
  from Suc.IH[OF w, of "i + 1"] Suc.prems(2)
  obtain b where "continues example_lib k (i + 1) a' = Some (i + 1 + int k, b)" "wanders b"
    by auto
  then show ?case using s c by (simp add: add.assoc add.commute)
qed

lemma wandering_agent:
  "create_orchestrator_agent wandering example_url () =
     Inr \<lparr>role = ''orchestrator'', max_iterations = 60,
          tools = orchestrator_tools wandering ''acme/widgets'', client = anthropic wandering,
          events = [], messages = [], done_flag = False, result = JObj [],
          interrupted = False, world = ()\<rparr>"
proof -
  have "extract_repo_full_name example_url = Inr ''acme/widgets''" by code_simp
  then show ?thesis by (simp add: create_orchestrator_agent_def)
qed

lemma wandering_reaches_cap:
  assumes "create_orchestrator_agent wandering example_url () = Inr agent0"
  shows "\<exists>b. continues example_lib 60 0
           (status_change ''started''
              (agent0\<lparr>messages := [\<lparr>msg_role = ''user'', msg_content = Text ''{}''\<rparr>],
                      done_flag := False\<rparr>)) = Some (60, b)
         \<and> max_iterations b \<le> 60 \<and> \<not> done_flag b"
proof -
  have "wanders (status_change ''started''
              (agent0\<lparr>messages := [\<lparr>msg_role = ''user'', msg_content = Text ''{}''\<rparr>],
                      done_flag := False\<rparr>))"
    using assms unfolding wandering_agent
    by (auto simp: wanders_def status_change_def emit_def)
  from wandering_continues[OF this, of 0 60] show ?thesis
    by (auto simp: wanders_def)
qed
subsection \<open>Writing, then reading\<close>





lemma relative_path_passes_guard:
  "root (parse_path p) = [] \<Longrightarrow>
   is_relative_to (joinpath (workspace sandbox) (parse_path p)) (workspace sandbox)"
  by (simp add: is_relative_to_def joinpath_def is_prefix_def)

subsection \<open>The claims\<close>

text \<open>
  C1 (what the code does). The test of the sandbox compares the parts of the joined path
  as they are written, and \<open>pathlib\<close> keeps \<open>..\<close>: a relative path passes it however far
  it climbs. For the workspace \<open>/tmp/ramp_x/repo\<close>, \<open>read_file\<close> returns \<open>/etc/passwd\<close>,
  \<open>write_file\<close> of \<open>../../etc/passwd\<close> makes \<open>/tmp/etc\<close> and writes the file in it,
  \<open>list_dir\<close> lists \<open>/etc\<close>, and the implementer's \<open>_delete\<close>, which has no test at all,
  removes \<open>/etc/passwd\<close> also under its absolute name, which \<open>delete_file\<close> of
  tools/filesystem.py refuses.
\<close>

theorem path_escape_not_rejected:
  "read_file example_fs [] example_sandbox ''../../../etc/passwd'' = Inr ''root:x:0:0''
   \<and> write_file example_fs [] example_sandbox ''../../etc/passwd'' ''x'' =
       (None, example_fs @ [([''tmp'', ''etc''], Dir),
                            ([''tmp'', ''etc'', ''passwd''], File (Utf8 ''x''))])
   \<and> list_dir example_fs [] example_sandbox ''../../../etc'' = Inr [''../../../etc/passwd'']
   \<and> implementer_delete example_fs [] example_sandbox ''../../../etc/passwd'' =
       (Inr ''Deleted ../../../etc/passwd'', AList.delete [''etc'', ''passwd''] example_fs)
   \<and> implementer_delete example_fs [] example_sandbox ''/etc/passwd'' =
       (Inr ''Deleted /etc/passwd'', AList.delete [''etc'', ''passwd''] example_fs)
   \<and> delete_file example_fs [] example_sandbox ''/etc/passwd'' =
       (Inl (PermissionError ''Path escapes workspace: /etc/passwd''), example_fs)"
  by code_simp

text \<open>
  C2 (as the code has it). The controller makes its agent from the URL of the repository,
  which must name a GitHub repository, with a cap of 60 iterations. When the loop of that
  agent comes to its cap with the done flag not set, the executor emits the \<open>error\<close> event
  and returns the result \<open>{error: max_iterations_reached}\<close>. The controller does not look
  for an error in the result: when the diff can be taken it goes on to mark the run and the
  session \<open>completed\<close>.
\<close>

theorem max_iterations_exhaustion:
  assumes "sandbox_create P repo_url w0 = (None, w)"
    and "create_orchestrator_agent S repo_url w = Inr agent0"
    and "json_dumps L (JObj [(''prompt'', JStr prompt), (''repo_url'', JStr repo_url)]) = Inr s"
    and "continues L k 0
           (status_change ''started''
              (agent0\<lparr>messages := [\<lparr>msg_role = ''user'', msg_content = Text s\<rparr>],
                      done_flag := False\<rparr>)) = Some (n, b)"
    and "max_iterations b \<le> n" and "\<not> done_flag b"
    and "fst (git_diff P (world b)) = Inr d"
  shows "run L (JObj [(''prompt'', JStr prompt), (''repo_url'', JStr repo_url)]) agent0 =
           (Inr \<lparr>out_role = role b,
                 out_result = JObj [(''error'', JStr ''max_iterations_reached'')],
                 out_events = events b @ [max_iterations_event b]\<rparr>,
            b\<lparr>events := events b @ [max_iterations_event b]\<rparr>)
     \<and> (\<exists>res st' a' w'. orchestrator_run L P S repo_url prompt w0 st = (Inr res, st', a', w')
           \<and> run_status st' = completed \<and> session_status st' = completed)"
  using assms by (rule exhaustion_completed)

text \<open>
  A model that lists the directory of \<open>https://github.com/acme/widgets.git\<close> at each of
  its 60 turns: the result of the agent is the error, and neither the run nor the session
  is marked \<open>failed\<close>.
\<close>

theorem max_iterations_marked_failed_counterexample:
  "(case create_orchestrator_agent wandering example_url () of
      Inl e \<Rightarrow> False
    | Inr agent0 \<Rightarrow>
        map_sum id out_result (fst (run example_lib example_context agent0)) =
        Inr (JObj [(''error'', JStr ''max_iterations_reached'')]))
   \<and> run_status (fst (snd (orchestrator_run example_lib example_provider wandering
                              example_url ''fix it'' () new_orchestrator)))
       \<noteq> failed
   \<and> session_status (fst (snd (orchestrator_run example_lib example_provider wandering
                              example_url ''fix it'' () new_orchestrator)))
       \<noteq> failed"
proof -
  obtain agent0 where a: "create_orchestrator_agent wandering example_url () = Inr agent0"
    using wandering_agent by blast
  from wandering_reaches_cap[OF a] obtain b where
    c: "continues example_lib 60 0
           (status_change ''started''
              (agent0\<lparr>messages := [\<lparr>msg_role = ''user'', msg_content = Text ''{}''\<rparr>],
                      done_flag := False\<rparr>)) = Some (60, b)"
    and m: "max_iterations b \<le> 60" and d: "\<not> done_flag b"
    by blast
  have h1: "sandbox_create example_provider example_url () = (None, ())"
    by (simp add: example_provider_def)
  have h3: "json_dumps example_lib
              (JObj [(''prompt'', JStr ''fix it''), (''repo_url'', JStr example_url)]) = Inr ''{}''"
    by (simp add: example_lib_def)
  have h7: "fst (git_diff example_provider (world b)) = Inr []"
    by (simp add: example_provider_def)
  note t = exhaustion_completed [OF h1 a h3 c m d h7, of new_orchestrator]
  from conjunct2[OF t] obtain res st' a' w' where
    "orchestrator_run example_lib example_provider wandering example_url ''fix it'' ()
       new_orchestrator = (Inr res, st', a', w')"
    "run_status st' = completed" "session_status st' = completed"
    by blast
  then show ?thesis using a conjunct1[OF t] by (simp add: example_context_def)
qed

theorem max_iterations_exhaustion_witness:
  "sandbox_create example_provider example_url () = (None, ())
   \<and> (\<exists>agent0 b.
         create_orchestrator_agent wandering example_url () = Inr agent0
       \<and> json_dumps example_lib example_context = Inr ''{}''
       \<and> continues example_lib 60 0
           (status_change ''started''
              (agent0\<lparr>messages := [\<lparr>msg_role = ''user'', msg_content = Text ''{}''\<rparr>],
                      done_flag := False\<rparr>)) = Some (60, b)
       \<and> max_iterations b \<le> 60 \<and> \<not> done_flag b
       \<and> fst (git_diff example_provider (world b)) = Inr []
       \<and> map_sum id out_result (fst (run example_lib example_context agent0)) =
           Inr (JObj [(''error'', JStr ''max_iterations_reached'')]))
   \<and> (\<exists>res st' a' w'.
         orchestrator_run example_lib example_provider wandering example_url ''fix it'' ()
           new_orchestrator = (Inr res, st', a', w')
       \<and> run_status st' = completed \<and> session_status st' = completed)"
proof -
  obtain agent0 where a: "create_orchestrator_agent wandering example_url () = Inr agent0"
    using wandering_agent by blast
  from wandering_reaches_cap[OF a] obtain b where
    c: "continues example_lib 60 0
           (status_change ''started''
              (agent0\<lparr>messages := [\<lparr>msg_role = ''user'', msg_content = Text ''{}''\<rparr>],
                      done_flag := False\<rparr>)) = Some (60, b)"
    and m: "max_iterations b \<le> 60" and d: "\<not> done_flag b"
    by blast
  have h1: "sandbox_create example_provider example_url () = (None, ())"
    by (simp add: example_provider_def)
  have h3: "json_dumps example_lib
              (JObj [(''prompt'', JStr ''fix it''), (''repo_url'', JStr example_url)]) = Inr ''{}''"
    by (simp add: example_lib_def)
  have h7: "fst (git_diff example_provider (world b)) = Inr []"
    by (simp add: example_provider_def)
  note t = max_iterations_exhaustion [OF h1 a h3 c m d h7, of new_orchestrator]
  have r: "map_sum id out_result (fst (run example_lib example_context agent0)) =
           Inr (JObj [(''error'', JStr ''max_iterations_reached'')])"
    using conjunct1[OF t] by (simp add: example_context_def)
  have "\<exists>agent0 b.
         create_orchestrator_agent wandering example_url () = Inr agent0
       \<and> json_dumps example_lib example_context = Inr ''{}''
       \<and> continues example_lib 60 0
           (status_change ''started''
              (agent0\<lparr>messages := [\<lparr>msg_role = ''user'', msg_content = Text ''{}''\<rparr>],
                      done_flag := False\<rparr>)) = Some (60, b)
       \<and> max_iterations b \<le> 60 \<and> \<not> done_flag b
       \<and> fst (git_diff example_provider (world b)) = Inr []
       \<and> map_sum id out_result (fst (run example_lib example_context agent0)) =
           Inr (JObj [(''error'', JStr ''max_iterations_reached'')])"
    using a h3 c m d h7 r unfolding example_context_def by blast
  then show ?thesis using h1 conjunct2[OF t] by blast
qed
text \<open>
  C3. A command whose stripped, lowercased form matches one of the forbidden patterns gets
  the synthetic result: exit code 2, empty stdout, the fixed safety banner on stderr; and
  the sandbox's log of spawned commands is unchanged, so no process was started for it.
\<close>

theorem forbidden_command_rejected:
  assumes "\<exists>pattern \<in> set FORBIDDEN_COMMAND_PATTERNS. re_search pattern (lower (strip command))"
  shows "verifier_run provider log command =
           (\<lparr>exit_code = 2, stdout = [], stderr = safety_banner\<rparr>, log)"
  using assms by (simp add: verifier_run_def list_ex_iff)

theorem forbidden_command_rejected_witness:
  "(\<exists>pattern \<in> set FORBIDDEN_COMMAND_PATTERNS.
      re_search pattern (lower (strip ''  Git Push origin main '')))
   \<and> verifier_run (\<lambda>log cmd. \<lparr>exit_code = 0, stdout = [], stderr = []\<rparr>) []
         ''  Git Push origin main '' =
       (\<lparr>exit_code = 2, stdout = [], stderr = safety_banner\<rparr>, [])"
proof -
  have h: "\<exists>pattern \<in> set FORBIDDEN_COMMAND_PATTERNS.
             re_search pattern (lower (strip ''  Git Push origin main ''))"
    by code_simp
  show ?thesis using h forbidden_command_rejected [OF h] by simp
qed



text \<open>
  C5 (what the code does). On the first wait that times out the subscription yields the
  keepalive record and ends: whatever is published afterwards is not yielded.
\<close>

theorem subscribe_ends_at_timeout:
  "subscribe now (TimedOut # waits) = ([keepalive now], True)"
  by simp

theorem subscribe_drops_later_event:
  "subscribe ''2026-01-01T00:00:00+00:00''
     [Arrived (JObj [(''type'', JStr ''agent_message'')]), TimedOut,
      Arrived (JObj [(''type'', JStr ''tool_call'')])] =
   ([JObj [(''type'', JStr ''agent_message'')], keepalive ''2026-01-01T00:00:00+00:00''], True)"
  by simp

text \<open>
  C6 (as the code has it). When the handler of a registered tool raises an \<open>Exception\<close>
  with message \<open>e\<close>, the block loop goes on: the text \<open>Error: e\<close> is the content of the
  block's tool result in the next user turn, the \<open>tool_result\<close> event carries the first
  5000 characters of that text, and the pass through the loop ends in \<open>continue\<close>
  (provided no other block of the response is cut off by a cancellation).
\<close>

theorem handler_exception_becomes_result:
  assumes "\<not> interrupted a"
    and "c_reply (client a (messages a) (world a)) = Inr (pre @ ToolUseBlock bid bname binput # post)"
    and "\<not> c_interrupt (client a (messages a) (world a))"
    and "process_blocks L pre (after_client (client a (messages a) (world a)) a, [], [])
           = (None, (a1, tp1, tr1))"
    and "find_tool a1 bname = Some t"
    and "h_outcome (handler t binput (world a1)) = Inl (Exception e)"
    and "fst (process_blocks L post
               (snd (process_block L (ToolUseBlock bid bname binput) (a1, tp1, tr1)))) = None"
  shows "fst (process_block L (ToolUseBlock bid bname binput) (a1, tp1, tr1)) = None \<and>
     (\<exists>a' trs. loop_body L a = Continue a'
        \<and> messages a' = messages a @
             [\<lparr>msg_role = ''assistant'',
               msg_content = Items (map Block (pre @ ToolUseBlock bid bname binput # post))\<rparr>,
              \<lparr>msg_role = ''user'', msg_content = Items trs\<rparr>]
        \<and> ToolResult bid (ContentStr (''Error: '' @ e)) \<in> set trs
        \<and> tool_call_event (role a) bid bname binput \<in> set (events a')
        \<and> tool_result_event (role a) bid bname (take 5000 (''Error: '' @ e)) \<in> set (events a'))"
proof -
  let ?b = "ToolUseBlock bid bname binput"
  let ?r = "handler t binput (world a1)"
  let ?ab = "emit ''tool_result''
               (JObj [(''tool'', JStr bname), (''id'', JStr bid),
                      (''result'', JStr (take 5000 (''Error: '' @ e)))])
               (after_handler ?r
                  (emit ''tool_call''
                     (JObj [(''tool'', JStr bname), (''input'', binput), (''id'', JStr bid)]) a1))"
  have blk: "process_block L ?b (a1, tp1, tr1) =
      (None, (?ab, tp1, tr1 @ [ToolResult bid (ContentStr (''Error: '' @ e))]))"
    using assms(5,6) by (simp add: Let_def record_result_def emit_def)
  have post: "fst (process_blocks L post
                 (?ab, tp1, tr1 @ [ToolResult bid (ContentStr (''Error: '' @ e))])) = None"
    using assms(7) blk by simp
  have tu: "is_tool_use ?b" by simp
  from block_reaches_next_turn[OF assms(1,2,3) tu assms(4) blk post]
  obtain a' trs where r: "role a1 = role a"
    and c: "loop_body L a = Continue a'"
      "messages a' = messages a @
             [\<lparr>msg_role = ''assistant'', msg_content = Items (map Block (pre @ ?b # post))\<rparr>,
              \<lparr>msg_role = ''user'', msg_content = Items trs\<rparr>]"
      "set (tr1 @ [ToolResult bid (ContentStr (''Error: '' @ e))]) \<subseteq> set trs"
      "set (events ?ab) \<subseteq> set (events a')"
    by blast
  have ev: "tool_call_event (role a) bid bname binput \<in> set (events ?ab)"
    "tool_result_event (role a) bid bname (take 5000 (''Error: '' @ e)) \<in> set (events ?ab)"
    using r after_handler_keeps[of ?r]
    by (simp_all add: emit_def tool_call_event_def tool_result_event_def)
  show ?thesis using blk c ev by auto
qed

theorem handler_exception_text_counterexample:
  "fst (process_block example_lib (ToolUseBlock ''toolu_1'' ''explode'' (JObj []))
          (example_agent 60 [failing_tool ''explode'' long_text] [] [], [], [])) = None
   \<and> tool_result_event ''orchestrator'' ''toolu_1'' ''explode'' (''Error: '' @ long_text)
       \<notin> set (events (fst (snd (process_block example_lib
                 (ToolUseBlock ''toolu_1'' ''explode'' (JObj []))
                 (example_agent 60 [failing_tool ''explode'' long_text] [] [], [], [])))))"
proof -
  have ev: "process_block example_lib (ToolUseBlock ''toolu_1'' ''explode'' (JObj []))
          (example_agent 60 [failing_tool ''explode'' long_text] [] [], [], []) =
       (None,
        (example_agent 60 [failing_tool ''explode'' long_text] [] [])
          \<lparr>events := [tool_call_event ''orchestrator'' ''toolu_1'' ''explode'' (JObj []),
                      tool_result_event ''orchestrator'' ''toolu_1'' ''explode''
                        (take 5000 (''Error: '' @ long_text))]\<rparr>,
        [], [ToolResult ''toolu_1'' (ContentStr (''Error: '' @ long_text))])"
    by (simp add: example_agent_def failing_tool_def find_tool_def record_result_def Let_def
          emit_def after_handler_def tool_call_event_def tool_result_event_def)
  have ne: "take 5000 (''Error: '' @ long_text) \<noteq> ''Error: '' @ long_text"
    by (rule take_cut) (simp add: long_text_def)
  show ?thesis unfolding ev using ne ne[symmetric]
    by (simp add: tool_call_event_def tool_result_event_def)
qed

theorem handler_exception_becomes_result_witness:
  "\<not> interrupted failing_agent
   \<and> c_reply (client failing_agent (messages failing_agent) (world failing_agent)) =
       Inr ([] @ ToolUseBlock ''toolu_1'' ''explode'' (JObj []) # [])
   \<and> find_tool failing_agent ''explode'' = Some (failing_tool ''explode'' ''disk full'')
   \<and> h_outcome (handler (failing_tool ''explode'' ''disk full'') (JObj []) (world failing_agent)) =
       Inl (Exception ''disk full'')
   \<and> (\<exists>a' trs. loop_body example_lib failing_agent = Continue a'
        \<and> messages a' = messages failing_agent @
             [\<lparr>msg_role = ''assistant'',
               msg_content = Items (map Block ([] @ ToolUseBlock ''toolu_1'' ''explode'' (JObj []) # []))\<rparr>,
              \<lparr>msg_role = ''user'', msg_content = Items trs\<rparr>]
        \<and> ToolResult ''toolu_1'' (ContentStr (''Error: '' @ ''disk full'')) \<in> set trs
        \<and> tool_call_event (role failing_agent) ''toolu_1'' ''explode'' (JObj []) \<in> set (events a')
        \<and> tool_result_event (role failing_agent) ''toolu_1'' ''explode''
             (take 5000 (''Error: '' @ ''disk full'')) \<in> set (events a'))"
proof -
  let ?a = failing_agent
  let ?b = "ToolUseBlock ''toolu_1'' ''explode'' (JObj [])"
  have h1: "\<not> interrupted ?a" by (simp add: failing_agent_def example_agent_def)
  have h2: "c_reply (client ?a (messages ?a) (world ?a)) = Inr ([] @ ?b # [])"
    by (simp add: failing_agent_def example_agent_def scripted_def)
  have h3: "\<not> c_interrupt (client ?a (messages ?a) (world ?a))"
    by (simp add: failing_agent_def example_agent_def scripted_def)
  have h4: "process_blocks example_lib [] (after_client (client ?a (messages ?a) (world ?a)) ?a, [], [])
      = (None, (?a, [], []))"
    using h3 by (simp add: after_client_def)
  have h5: "find_tool ?a ''explode'' = Some (failing_tool ''explode'' ''disk full'')"
    by (simp add: failing_agent_def example_agent_def find_tool_def failing_tool_def)
  have h6: "h_outcome (handler (failing_tool ''explode'' ''disk full'') (JObj []) (world ?a)) =
       Inl (Exception ''disk full'')"
    by (simp add: failing_tool_def)
  have h7: "fst (process_blocks example_lib [] (snd (process_block example_lib ?b (?a, [], [])))) = None"
    by simp
  show ?thesis
    using h1 h2 h5 h6 handler_exception_becomes_result [OF h1 h2 h3 h4 h5 h6 h7]
    by blast
qed

text \<open>
  C7. When the history ends with an assistant turn, \<open>resume msg\<close> enters the loop on the
  history extended by one user turn whose content is exactly \<open>msg\<close>, and that turn stays
  where it is in the history the loop leaves. In every case \<open>resume\<close> enters the loop with
  the done flag reset and with an event buffer that holds the \<open><role>_resumed\<close> status
  change and nothing else.
\<close>

theorem resume_appends_user_turn:
  "(messages a \<noteq> [] \<and> msg_role (last (messages a)) = ''assistant'' \<longrightarrow>
      messages (resume_prepare msg a) =
        messages a @ [\<lparr>msg_role = ''user'', msg_content = Text msg\<rparr>]
      \<and> last (messages (resume_prepare msg a)) = \<lparr>msg_role = ''user'', msg_content = Text msg\<rparr>
      \<and> (\<exists>rest. messages (snd (resume L msg a)) =
            messages a @ [\<lparr>msg_role = ''user'', msg_content = Text msg\<rparr>] @ rest))
   \<and> \<not> done_flag (resume_prepare msg a)
   \<and> events (resume_prepare msg a) = [status_event (role a) ''resumed'']
   \<and> resume L msg a = loop L (resume_prepare msg a)"
proof -
  have tail: "\<not> done_flag (resume_prepare msg a)
     \<and> events (resume_prepare msg a) = [status_event (role a) ''resumed'']"
    by (simp add: resume_prepare_def status_change_def status_event_def emit_def Let_def
             split: content.splits)
  have head: "messages (resume_prepare msg a) =
        messages a @ [\<lparr>msg_role = ''user'', msg_content = Text msg\<rparr>]"
    if "messages a \<noteq> []" "msg_role (last (messages a)) = ''assistant''"
    using that by (simp add: resume_prepare_def status_change_def emit_def Let_def)
  have after: "\<exists>rest. messages (snd (resume L msg a)) =
            messages a @ [\<lparr>msg_role = ''user'', msg_content = Text msg\<rparr>] @ rest"
    if "messages a \<noteq> []" "msg_role (last (messages a)) = ''assistant''"
    using loop_from_messages[of L 0 "resume_prepare msg a"] head[OF that]
    by (simp add: resume_def loop_def)
  show ?thesis using tail head after by (simp add: resume_def)
qed

theorem resume_appends_user_turn_witness:
  "messages (example_agent 60 [] [] [\<lparr>msg_role = ''assistant'', msg_content = Items []\<rparr>]) \<noteq> []
   \<and> msg_role (last (messages
        (example_agent 60 [] [] [\<lparr>msg_role = ''assistant'', msg_content = Items []\<rparr>]))) = ''assistant''
   \<and> last (messages (resume_prepare ''and now the tests''
        (example_agent 60 [] [] [\<lparr>msg_role = ''assistant'', msg_content = Items []\<rparr>]))) =
       \<lparr>msg_role = ''user'', msg_content = Text ''and now the tests''\<rparr>
   \<and> events (resume_prepare ''and now the tests''
        (example_agent 60 [] [] [\<lparr>msg_role = ''assistant'', msg_content = Items []\<rparr>])) =
       [status_event ''orchestrator'' ''resumed'']"
proof -
  let ?a = "example_agent 60 [] [] [\<lparr>msg_role = ''assistant'', msg_content = Items []\<rparr>]"
  have h: "messages ?a \<noteq> [] \<and> msg_role (last (messages ?a)) = ''assistant''"
    by (simp add: example_agent_def)
  have r: "role ?a = ''orchestrator''" by (simp add: example_agent_def)
  show ?thesis
    using h r resume_appends_user_turn [of ?a "''and now the tests''" example_lib] by simp
qed




text \<open>
  C9. A pass through the loop whose response has no tool-use block and whose accumulated
  text is empty ends the run: the result is exactly \<open>{summary: ""}\<close>, and the last event
  is the status change \<open><role>_completed\<close>. (The pass is one that reads the response: the
  agent is not interrupted before or during the call. \<open>json.loads\<close> rejects the empty
  string.)
\<close>

theorem empty_response_completes:
  assumes "iterations < max_iterations a" and "\<not> done_flag a" and "\<not> interrupted a"
    and "c_reply (client a (messages a) (world a)) = Inr response_content"
    and "\<not> c_interrupt (client a (messages a) (world a))"
    and "\<not> list_ex is_tool_use response_content"
    and "join [CHR 0x0A] (text_parts_of response_content) = []"
    and "json_loads L [] = None"
  shows "\<exists>out a'. loop_from L iterations a = (Inr out, a')
           \<and> out_result out = JObj [(''summary'', JStr [])]
           \<and> out_role out = role a
           \<and> out_events out = events a'
           \<and> events a' = events a @ message_events (role a) response_content @
                [status_event (role a) ''completed'']"
proof -
  let ?r = "client a (messages a) (world a)"
  let ?a1 = "after_client ?r a"
  have a1: "?a1 = a\<lparr>world := c_world ?r\<rparr>" using assms(5) by (simp add: after_client_def)
  have pb: "process_blocks L response_content (?a1, [], []) =
      (None, (?a1\<lparr>events := events ?a1 @ message_events (role ?a1) response_content\<rparr>,
              [] @ text_parts_of response_content, []))"
    using assms(6) by (rule process_blocks_no_tool_use)
  have body: "loop_body L a =
     (let a2 = ?a1\<lparr>events := events ?a1 @ message_events (role ?a1) response_content\<rparr>;
          a3 = status_change ''completed'' (a2\<lparr>result := JObj [(''summary'', JStr [])]\<rparr>)
      in Return (agent_output a3 (result a3)) a3)"
    using assms(2,3,4,6,7) pb parse_output_empty[OF assms(8)]
    by (simp add: loop_body_def Let_def a1)
  show ?thesis
    using assms(1,2) body
    by (subst loop_from.simps)
       (simp add: Let_def a1 status_change_def status_event_def emit_def agent_output_def)
qed

theorem empty_response_completes_witness:
  "(0::int) < max_iterations quiet_agent
   \<and> \<not> list_ex is_tool_use ([] :: block list)
   \<and> join [CHR 0x0A] (text_parts_of []) = []
   \<and> json_loads example_lib [] = None
   \<and> (\<exists>out a'. loop_from example_lib 0 quiet_agent = (Inr out, a')
        \<and> out_result out = JObj [(''summary'', JStr [])]
        \<and> out_role out = ''orchestrator''
        \<and> out_events out = events a'
        \<and> events a' = [status_event ''orchestrator'' ''completed''])"
proof -
  let ?a = quiet_agent
  have h1: "0 < max_iterations ?a" "\<not> done_flag ?a" "\<not> interrupted ?a"
    by (simp_all add: quiet_agent_def example_agent_def)
  have h2: "c_reply (client ?a (messages ?a) (world ?a)) = Inr []"
    "\<not> c_interrupt (client ?a (messages ?a) (world ?a))"
    by (simp_all add: quiet_agent_def example_agent_def scripted_def)
  have h3: "\<not> list_ex is_tool_use ([] :: block list)"
    "join [CHR 0x0A] (text_parts_of []) = []" "json_loads example_lib [] = None"
    by (simp_all add: join_def text_parts_of_def example_lib_def)
  have r: "role ?a = ''orchestrator''" "events ?a = []"
    by (simp_all add: quiet_agent_def example_agent_def)
  show ?thesis
    using h1 h3 r empty_response_completes [OF h1 h2 h3]
    by (simp add: message_events_def text_parts_of_def)
qed

text \<open>
  C10 (as the code has it). A tool-use block whose name no registered tool has raises
  nothing: the \<open>tool_call\<close> event is emitted, the text \<open>Error: unknown tool '<name>'\<close> is
  the content of the block's tool result in the next user turn, the \<open>tool_result\<close> event
  with the same id carries the first 5000 characters of that text, and the pass through
  the loop ends in \<open>continue\<close> (provided no other block of the response is cut off by a
  cancellation).
\<close>

theorem unknown_tool_becomes_result:
  assumes "\<not> interrupted a"
    and "c_reply (client a (messages a) (world a)) = Inr (pre @ ToolUseBlock bid bname binput # post)"
    and "\<not> c_interrupt (client a (messages a) (world a))"
    and "process_blocks L pre (after_client (client a (messages a) (world a)) a, [], [])
           = (None, (a1, tp1, tr1))"
    and "find_tool a1 bname = None"
    and "fst (process_blocks L post
               (snd (process_block L (ToolUseBlock bid bname binput) (a1, tp1, tr1)))) = None"
  shows "fst (process_block L (ToolUseBlock bid bname binput) (a1, tp1, tr1)) = None \<and>
     (\<exists>a' trs. loop_body L a = Continue a'
        \<and> messages a' = messages a @
             [\<lparr>msg_role = ''assistant'',
               msg_content = Items (map Block (pre @ ToolUseBlock bid bname binput # post))\<rparr>,
              \<lparr>msg_role = ''user'', msg_content = Items trs\<rparr>]
        \<and> ToolResult bid (ContentStr (''Error: unknown tool '' @ quote bname)) \<in> set trs
        \<and> tool_call_event (role a) bid bname binput \<in> set (events a')
        \<and> tool_result_event (role a) bid bname
             (take 5000 (''Error: unknown tool '' @ quote bname)) \<in> set (events a'))"
proof -
  let ?b = "ToolUseBlock bid bname binput"
  let ?text = "''Error: unknown tool '' @ quote bname"
  let ?ab = "emit ''tool_result''
               (JObj [(''tool'', JStr bname), (''id'', JStr bid),
                      (''result'', JStr (take 5000 ?text))])
               (emit ''tool_call''
                  (JObj [(''tool'', JStr bname), (''input'', binput), (''id'', JStr bid)]) a1)"
  have blk: "process_block L ?b (a1, tp1, tr1) =
      (None, (?ab, tp1, tr1 @ [ToolResult bid (ContentStr ?text)]))"
    using assms(5) by (simp add: Let_def record_result_def)
  have post: "fst (process_blocks L post (?ab, tp1, tr1 @ [ToolResult bid (ContentStr ?text)])) = None"
    using assms(6) blk by simp
  have tu: "is_tool_use ?b" by simp
  from block_reaches_next_turn[OF assms(1,2,3) tu assms(4) blk post]
  obtain a' trs where r: "role a1 = role a"
    and c: "loop_body L a = Continue a'"
      "messages a' = messages a @
             [\<lparr>msg_role = ''assistant'', msg_content = Items (map Block (pre @ ?b # post))\<rparr>,
              \<lparr>msg_role = ''user'', msg_content = Items trs\<rparr>]"
      "set (tr1 @ [ToolResult bid (ContentStr ?text)]) \<subseteq> set trs"
      "set (events ?ab) \<subseteq> set (events a')"
    by blast
  have ev: "tool_call_event (role a) bid bname binput \<in> set (events ?ab)"
    "tool_result_event (role a) bid bname (take 5000 ?text) \<in> set (events ?ab)"
    using r by (simp_all add: emit_def tool_call_event_def tool_result_event_def)
  show ?thesis using blk c ev by auto
qed

theorem unknown_tool_text_counterexample:
  "fst (process_block example_lib (ToolUseBlock ''toolu_1'' long_text (JObj []))
          (example_agent 60 [] [] [], [], [])) = None
   \<and> tool_result_event ''orchestrator'' ''toolu_1'' long_text
        (''Error: unknown tool '' @ quote long_text)
       \<notin> set (events (fst (snd (process_block example_lib
                 (ToolUseBlock ''toolu_1'' long_text (JObj []))
                 (example_agent 60 [] [] [], [], [])))))"
proof -
  have ev: "process_block example_lib (ToolUseBlock ''toolu_1'' long_text (JObj []))
          (example_agent 60 [] [] [], [], []) =
       (None,
        (example_agent 60 [] [] [])
          \<lparr>events := [tool_call_event ''orchestrator'' ''toolu_1'' long_text (JObj []),
                      tool_result_event ''orchestrator'' ''toolu_1'' long_text
                        (take 5000 (''Error: unknown tool '' @ quote long_text))]\<rparr>,
        [], [ToolResult ''toolu_1'' (ContentStr (''Error: unknown tool '' @ quote long_text))])"
    by (simp add: example_agent_def find_tool_def record_result_def Let_def
          emit_def tool_call_event_def tool_result_event_def)
  have ne: "take 5000 (''Error: unknown tool '' @ quote long_text)
          \<noteq> ''Error: unknown tool '' @ quote long_text"
    by (rule take_cut) (simp add: quote_def long_text_def)
  show ?thesis unfolding ev using ne ne[symmetric]
    by (simp add: tool_call_event_def tool_result_event_def)
qed

theorem unknown_tool_becomes_result_witness:
  "\<not> interrupted lost_agent
   \<and> c_reply (client lost_agent (messages lost_agent) (world lost_agent)) =
       Inr ([] @ ToolUseBlock ''toolu_1'' ''no_such_tool'' (JObj []) # [])
   \<and> find_tool lost_agent ''no_such_tool'' = None
   \<and> (\<exists>a' trs. loop_body example_lib lost_agent = Continue a'
        \<and> messages a' = messages lost_agent @
             [\<lparr>msg_role = ''assistant'',
               msg_content =
                 Items (map Block ([] @ ToolUseBlock ''toolu_1'' ''no_such_tool'' (JObj []) # []))\<rparr>,
              \<lparr>msg_role = ''user'', msg_content = Items trs\<rparr>]
        \<and> ToolResult ''toolu_1'' (ContentStr (''Error: unknown tool '' @ quote ''no_such_tool''))
              \<in> set trs
        \<and> tool_call_event (role lost_agent) ''toolu_1'' ''no_such_tool'' (JObj []) \<in> set (events a')
        \<and> tool_result_event (role lost_agent) ''toolu_1'' ''no_such_tool''
             (take 5000 (''Error: unknown tool '' @ quote ''no_such_tool'')) \<in> set (events a'))"
proof -
  let ?a = lost_agent
  let ?b = "ToolUseBlock ''toolu_1'' ''no_such_tool'' (JObj [])"
  have h1: "\<not> interrupted ?a" by (simp add: lost_agent_def example_agent_def)
  have h2: "c_reply (client ?a (messages ?a) (world ?a)) = Inr ([] @ ?b # [])"
    by (simp add: lost_agent_def example_agent_def scripted_def)
  have h3: "\<not> c_interrupt (client ?a (messages ?a) (world ?a))"
    by (simp add: lost_agent_def example_agent_def scripted_def)
  have h4: "process_blocks example_lib [] (after_client (client ?a (messages ?a) (world ?a)) ?a, [], [])
      = (None, (?a, [], []))"
    using h3 by (simp add: after_client_def)
  have h5: "find_tool ?a ''no_such_tool'' = None"
    by (simp add: lost_agent_def example_agent_def find_tool_def)
  have h6: "fst (process_blocks example_lib [] (snd (process_block example_lib ?b (?a, [], [])))) = None"
    by simp
  show ?thesis
    using h1 h2 h5 unknown_tool_becomes_result [OF h1 h2 h3 h4 h5 h6]
    by blast
qed

end
